theory Spec2Isabelle
  imports Complex_Main "HOL-Library.Word"
begin

unbundle bit_operations_syntax

section \<open>Server side\<close>

subsection \<open>Strings\<close>

text \<open>
  A string is a list of characters; its length is what \<open>isLength\<close> and the schema's
  \<open>minlength\<close>/\<open>maxlength\<close> count. Characters are taken as code points below 256, so the
  white space that \<open>String.prototype.trim\<close> and the validator's \<open>trim\<close> strip is
  TAB, LF, VT, FF, CR, SPACE and NBSP.
\<close>

definition is_space :: "char \<Rightarrow> bool" where
  "is_space c = (of_char c \<in> {9, 10, 11, 12, 13, 32, 160 :: nat})"

definition trim :: "string \<Rightarrow> string" where
  "trim s = rev (dropWhile is_space (rev (dropWhile is_space s)))"

text \<open>
  The \<open>escape\<close> sanitizer of the request validator replaces each of
  \<open>& " ' < > / \ `\<close> by its HTML entity and leaves every other character.
\<close>

definition escape_char :: "char \<Rightarrow> string" where
  "escape_char c =
     (if c = CHR ''&'' then ''&amp;''
      else if c = CHR 0x22 then ''&quot;''
      else if c = CHR 0x27 then ''&#x27;''
      else if c = CHR ''<'' then ''&lt;''
      else if c = CHR ''>'' then ''&gt;''
      else if c = CHR ''/'' then ''&#x2F;''
      else if c = CHR 0x5C then ''&#x5C;''
      else if c = CHR 0x60 then ''&#96;''
      else [c])"

definition escape :: "string \<Rightarrow> string" where
  "escape s = concat (map escape_char s)"

definition is_hex_digit :: "char \<Rightarrow> bool" where
  "is_hex_digit c =
     (let n = (of_char c :: nat)
      in (48 \<le> n \<and> n \<le> 57) \<or> (65 \<le> n \<and> n \<le> 70) \<or> (97 \<le> n \<and> n \<le> 102))"

text \<open>\<open>String.prototype.includes\<close>.\<close>

fun is_prefix :: "string \<Rightarrow> string \<Rightarrow> bool" where
  "is_prefix [] s = True"
| "is_prefix (p # ps) [] = False"
| "is_prefix (p # ps) (c # cs) = (p = c \<and> is_prefix ps cs)"

fun str_includes :: "string \<Rightarrow> string \<Rightarrow> bool" where
  "str_includes [] sub = (sub = [])"
| "str_includes (c # cs) sub = (is_prefix sub (c # cs) \<or> str_includes cs sub)"

text \<open>\<open>a || b\<close> on strings: the empty string is falsy.\<close>

definition or_else :: "string \<Rightarrow> string \<Rightarrow> string" where
  "or_else a b = (if a = [] then b else a)"

subsection \<open>JSON values and JavaScript numbers\<close>

text \<open>
  What \<open>res.json\<close> sends. A \<open>Date\<close> is serialised as its ISO string; \<open>JDate\<close> keeps the
  time in milliseconds it stands for. An absent member (\<open>undefined\<close>) is not in the object.
\<close>

datatype json =
  JNull | JBool bool | JNum int | JStr string | JDate int
| JArr "json list" | JObj "(string \<times> json) list"

fun jfield :: "string \<Rightarrow> json \<Rightarrow> json option" where
  "jfield k (JObj kvs) = map_of kvs k"
| "jfield k _ = None"

fun jkeys :: "json \<Rightarrow> string list" where
  "jkeys (JObj kvs) = map fst kvs"
| "jkeys _ = []"

text \<open>\<open>Boolean(v)\<close> on a parsed JSON value.\<close>

fun truthy :: "json \<Rightarrow> bool" where
  "truthy JNull = False"
| "truthy (JBool b) = b"
| "truthy (JNum n) = (n \<noteq> 0)"
| "truthy (JStr s) = (s \<noteq> [])"
| "truthy (JDate _) = True"
| "truthy (JArr _) = True"
| "truthy (JObj _) = True"

text \<open>
  The numbers the pagination arithmetic can produce: an integer, \<open>Infinity\<close> (a positive
  count divided by a zero limit) or \<open>NaN\<close> (zero divided by zero). \<open>JSON.stringify\<close>
  writes the last two as \<open>null\<close>.
\<close>

datatype jsnum = Num int | PosInf | NaN

text \<open>\<open>Math.ceil(a / b)\<close> for an integer \<open>a \<ge> 0\<close> and an integer \<open>b\<close>.\<close>

definition js_ceil_div :: "int \<Rightarrow> int \<Rightarrow> jsnum" where
  "js_ceil_div a b =
     (if b = 0 then (if a = 0 then NaN else PosInf)
      else Num (- ((- a) div b)))"

fun js_lt :: "int \<Rightarrow> jsnum \<Rightarrow> bool" where
  "js_lt n (Num m) = (n < m)"
| "js_lt n PosInf = True"
| "js_lt n NaN = False"

fun jsnum_json :: "jsnum \<Rightarrow> json" where
  "jsnum_json (Num n) = JNum n"
| "jsnum_json PosInf = JNull"
| "jsnum_json NaN = JNull"

subsection \<open>Documents and the collection (models/Note.js)\<close>

text \<open>
  A stored document: the ObjectId (twelve bytes), the four schema paths, the two timestamps
  of \<open>timestamps: true\<close> (milliseconds) and the version key \<open>__v\<close>. The collection is the
  list of its documents in natural (insertion) order.
\<close>

record doc =
  oid :: "96 word"
  title :: string
  content :: string
  isArchived :: bool
  tags :: "string list"
  createdAt :: int
  updatedAt :: int
  version :: nat

type_synonym store = "doc list"

definition hex_char :: "nat \<Rightarrow> char" where
  "hex_char n = (if n < 10 then char_of (48 + n) else char_of (87 + n))"

text \<open>\<open>ObjectId.prototype.toString\<close>: the 24 lower-case hex digits, high nibble first.\<close>

definition oid_string :: "96 word \<Rightarrow> string" where
  "oid_string w = map (\<lambda>i. hex_char (unat (drop_bit (4 * (23 - i)) w AND 15))) [0 ..< 24]"

definition hex_value :: "char \<Rightarrow> nat" where
  "hex_value c =
     (let n = (of_char c :: nat)
      in if n \<le> 57 then n - 48 else if n \<le> 70 then n - 55 else n - 87)"

text \<open>
  Casting a string to an ObjectId, as the ODM does for \<open>_id\<close>: exactly 24 hex digits, or
  the cast fails (a \<open>CastError\<close>).
\<close>

definition cast_oid :: "string \<Rightarrow> 96 word option" where
  "cast_oid s =
     (if length s = 24 \<and> list_all is_hex_digit s
      then Some (foldl (\<lambda>w c. push_bit 4 w OR of_nat (hex_value c)) 0 s)
      else None)"

text \<open>The members of a document as they are serialised, before any transform.\<close>

definition doc_fields :: "doc \<Rightarrow> (string \<times> json) list" where
  "doc_fields d =
     [(''_id'', JStr (oid_string (oid d))),
      (''title'', JStr (title d)),
      (''content'', JStr (content d)),
      (''isArchived'', JBool (isArchived d)),
      (''tags'', JArr (map JStr (tags d))),
      (''createdAt'', JDate (createdAt d)),
      (''updatedAt'', JDate (updatedAt d)),
      (''__v'', JNum (int (version d)))]"

text \<open>
  A query run with \<open>.lean()\<close> gives plain objects: the schema's \<open>toJSON\<close> transform is not
  applied to them.
\<close>

definition lean_json :: "doc \<Rightarrow> json" where
  "lean_json d = JObj (doc_fields d)"

text \<open>
  The schema's \<open>toJSON\<close> transform, applied when a hydrated document is serialised:
  \<open>ret.id = ret._id?.toString(); delete ret._id; delete ret.__v\<close>.
\<close>

definition transform :: "doc \<Rightarrow> (string \<times> json) list \<Rightarrow> (string \<times> json) list" where
  "transform d ret =
     filter (\<lambda>kv. fst kv \<noteq> ''__v'')
       (filter (\<lambda>kv. fst kv \<noteq> ''_id'')
          (filter (\<lambda>kv. fst kv \<noteq> ''id'') ret
             @ (case map_of ret ''_id'' of
                  Some (JStr s) \<Rightarrow> [(''id'', JStr s)]
                | _ \<Rightarrow> [])))"

definition toJSON :: "doc \<Rightarrow> json" where
  "toJSON d = JObj (transform d (doc_fields d))"

definition find_by_oid :: "store \<Rightarrow> 96 word \<Rightarrow> doc option" where
  "find_by_oid st i = find (\<lambda>d. oid d = i) st"

text \<open>Replace the first document with the given id (the one \<open>find_by_oid\<close> finds).\<close>

fun replace_first :: "96 word \<Rightarrow> doc \<Rightarrow> store \<Rightarrow> store" where
  "replace_first i d' [] = []"
| "replace_first i d' (d # ds) = (if oid d = i then d' # ds else d # replace_first i d' ds)"

fun remove_first :: "96 word \<Rightarrow> store \<Rightarrow> store" where
  "remove_first i [] = []"
| "remove_first i (d # ds) = (if oid d = i then ds else d # remove_first i ds)"

subsection \<open>Responses and the error classifier (middleware/errorHandler.js)\<close>

record response =
  status :: nat
  body :: json

definition VALIDATION_ERROR :: string where
  "VALIDATION_ERROR = ''Validation error occurred''"

definition NOTE_NOT_FOUND :: string where
  "NOTE_NOT_FOUND = ''Note not found''"

definition INVALID_ID_FORMAT :: string where
  "INVALID_ID_FORMAT = ''Invalid ID format provided''"

definition DATABASE_NOT_AVAILABLE :: string where
  "DATABASE_NOT_AVAILABLE = ''Database service is not available''"

definition INTERNAL_SERVER_ERROR :: string where
  "INTERNAL_SERVER_ERROR = ''Internal server error occurred''"

text \<open>
  What a handler can catch and pass to \<open>next(err)\<close>: the ODM's validation error with its
  per-path entries (path, message, value), its cast error (path, value), its
  document-not-found error, or any other error, of which the classifier reads \<open>name\<close>,
  \<open>message\<close>, \<open>code\<close> and \<open>keyValue\<close>.
\<close>

datatype err_code = NoCode | NumCode int | StrCode string

type_synonym field_error = "string \<times> string \<times> json option"

datatype err =
  ValidationError "field_error list"
| CastError string json
| DocumentNotFoundError
| JsError string string err_code "(string \<times> json) list"

text \<open>One entry of an \<open>errors\<close> array; the given key names the path (\<open>field\<close>), and a
  value that is \<open>undefined\<close> is left out.\<close>

definition field_error_json :: "field_error \<Rightarrow> json" where
  "field_error_json e =
     (case e of (path, msg, v) \<Rightarrow>
        JObj ([(''field'', JStr path), (''message'', JStr msg)]
              @ (case v of None \<Rightarrow> [] | Some j \<Rightarrow> [(''value'', j)])))"

definition isDatabaseConnectionError :: "string \<Rightarrow> string \<Rightarrow> err_code \<Rightarrow> bool" where
  "isDatabaseConnectionError name msg code =
     (name = ''MongooseServerSelectionError'' \<or> name = ''MongoNetworkError''
      \<or> str_includes msg ''ECONNREFUSED'' \<or> str_includes msg ''ETIMEDOUT''
      \<or> str_includes msg ''connection'' \<or> code = StrCode ''ENOTFOUND'')"

text \<open>
  \<open>errorHandler\<close>, with the branches in the source's order. The first argument is
  \<open>process.env.NODE_ENV === "development"\<close>. The stack trace sent in development is
  represented by its first line.
\<close>

fun errorHandler :: "bool \<Rightarrow> err \<Rightarrow> response" where
  "errorHandler dev (ValidationError errors) =
     \<lparr>status = 400,
      body = JObj [(''success'', JBool False), (''message'', JStr VALIDATION_ERROR),
                   (''errors'', JArr (map field_error_json errors))]\<rparr>"
| "errorHandler dev (CastError path v) =
     \<lparr>status = 400,
      body = JObj [(''success'', JBool False), (''message'', JStr INVALID_ID_FORMAT),
                   (''field'', JStr path), (''value'', v)]\<rparr>"
| "errorHandler dev DocumentNotFoundError =
     \<lparr>status = 404,
      body = JObj [(''success'', JBool False), (''message'', JStr NOTE_NOT_FOUND)]\<rparr>"
| "errorHandler dev (JsError name msg code keyValue) =
     (if isDatabaseConnectionError name msg code then
        \<lparr>status = 503,
         body = JObj [(''success'', JBool False), (''message'', JStr DATABASE_NOT_AVAILABLE)]\<rparr>
      else if code = NumCode 11000 then
        \<lparr>status = 409,
         body = JObj ([(''success'', JBool False),
                       (''message'', JStr (''Duplicate value for field: ''
                          @ (case keyValue of [] \<Rightarrow> ''undefined'' | kv # _ \<Rightarrow> fst kv)))]
                      @ (case keyValue of [] \<Rightarrow> []
                         | kv # _ \<Rightarrow> [(''field'', JStr (fst kv)), (''value'', snd kv)]))\<rparr>
      else if name = ''JsonWebTokenError'' then
        \<lparr>status = 401,
         body = JObj [(''success'', JBool False),
                      (''message'', JStr ''Invalid authentication token'')]\<rparr>
      else if name = ''TokenExpiredError'' then
        \<lparr>status = 401,
         body = JObj [(''success'', JBool False),
                      (''message'', JStr ''Authentication token has expired'')]\<rparr>
      else
        \<lparr>status = 500,
         body = JObj ([(''success'', JBool False), (''message'', JStr INTERNAL_SERVER_ERROR)]
                      @ (if dev then [(''error'', JStr msg),
                                      (''stack'', JStr (name @ '': '' @ msg))]
                         else []))\<rparr>)"

declare errorHandler.simps [simp del]

subsection \<open>Validation and sanitisation (middleware/validation.js)\<close>

text \<open>
  The JSON body of a create or update request. \<open>title\<close> and \<open>content\<close> are strings when
  present (bodies that put another JSON type there are outside the model); \<open>tags\<close> and
  \<open>isArchived\<close> are any JSON value when present.
\<close>

record req_body =
  b_title :: "string option"
  b_content :: "string option"
  b_tags :: "json option"
  b_isArchived :: "json option"

definition body_json :: "req_body \<Rightarrow> json" where
  "body_json b =
     JObj ((case b_title b of None \<Rightarrow> [] | Some s \<Rightarrow> [(''title'', JStr s)])
         @ (case b_content b of None \<Rightarrow> [] | Some s \<Rightarrow> [(''content'', JStr s)])
         @ (case b_tags b of None \<Rightarrow> [] | Some j \<Rightarrow> [(''tags'', j)])
         @ (case b_isArchived b of None \<Rightarrow> [] | Some j \<Rightarrow> [(''isArchived'', j)]))"

fun trim_if_string :: "json \<Rightarrow> json" where
  "trim_if_string (JStr s) = JStr (trim s)"
| "trim_if_string j = j"

text \<open>\<open>sanitizeRequestBody\<close>: every top-level member that is a string is trimmed.\<close>

definition sanitizeRequestBody :: "req_body \<Rightarrow> req_body" where
  "sanitizeRequestBody b =
     \<lparr>b_title = map_option trim (b_title b),
      b_content = map_option trim (b_content b),
      b_tags = map_option trim_if_string (b_tags b),
      b_isArchived = map_option trim_if_string (b_isArchived b)\<rparr>"

definition TITLE_MIN_LENGTH :: nat where "TITLE_MIN_LENGTH = 1"
definition TITLE_MAX_LENGTH :: nat where "TITLE_MAX_LENGTH = 200"
definition CONTENT_MIN_LENGTH :: nat where "CONTENT_MIN_LENGTH = 1"
definition CONTENT_MAX_LENGTH :: nat where "CONTENT_MAX_LENGTH = 10000"

text \<open>
  The part \<open>.notEmpty().withMessage(m1).isLength({min, max}).withMessage(m2)\<close> of a chain,
  on the already trimmed value: both validators run, and each failure adds an entry.
\<close>

definition check_text ::
  "string \<Rightarrow> string \<Rightarrow> nat \<Rightarrow> nat \<Rightarrow> string \<Rightarrow> string \<Rightarrow> field_error list" where
  "check_text path v mn mx msg_empty msg_length =
     (if v = [] then [(path, msg_empty, Some (JStr v))] else [])
     @ (if length v < mn \<or> mx < length v then [(path, msg_length, Some (JStr v))] else [])"

definition title_length_message :: string where
  "title_length_message = ''Title must be between 1 and 200 characters''"

definition content_length_message :: string where
  "content_length_message = ''Content must be between 1 and 10000 characters''"

text \<open>
  \<open>validateCreateNote\<close> without its last element: the errors collected by the two chains,
  and the body as the sanitizers (\<open>trim\<close>, then \<open>escape\<close>) leave it. An absent member is
  validated as the empty string.
\<close>

definition validateCreateNote :: "req_body \<Rightarrow> field_error list \<times> req_body" where
  "validateCreateNote b =
     (let t = trim (case b_title b of None \<Rightarrow> [] | Some s \<Rightarrow> s);
          c = trim (case b_content b of None \<Rightarrow> [] | Some s \<Rightarrow> s)
      in (check_text ''title'' t TITLE_MIN_LENGTH TITLE_MAX_LENGTH
            ''Title is required'' title_length_message
          @ check_text ''content'' c CONTENT_MIN_LENGTH CONTENT_MAX_LENGTH
            ''Content is required'' content_length_message,
          b\<lparr>b_title := Some (escape t), b_content := Some (escape c)\<rparr>))"

text \<open>
  \<open>isMongoId\<close> of the validator: a hexadecimal string of length 24, where a hexadecimal
  string is one or more hex digits after an optional prefix \<open>0x\<close> or \<open>0h\<close> (in either
  case).
\<close>

definition isHexadecimal :: "string \<Rightarrow> bool" where
  "isHexadecimal s =
     ((s \<noteq> [] \<and> list_all is_hex_digit s)
      \<or> (case s of
            a # b # r \<Rightarrow> a = CHR ''0'' \<and> b \<in> set ''xXhH'' \<and> r \<noteq> [] \<and> list_all is_hex_digit r
          | _ \<Rightarrow> False))"

definition isMongoId :: "string \<Rightarrow> bool" where
  "isMongoId s = (isHexadecimal s \<and> length s = 24)"

definition update_required_message :: string where
  "update_required_message =
     ''At least one field (title or content) must be provided for update''"

text \<open>
  \<open>validateUpdateNote\<close> without its last element. The chains run in order and each
  sanitizer writes back to the body, so the custom validator at the end reads the
  sanitised \<open>req.body.title\<close> and \<open>req.body.content\<close>; it throws when both are falsy
  (absent or empty).
\<close>

definition validateUpdateNote :: "string \<Rightarrow> req_body \<Rightarrow> field_error list \<times> req_body" where
  "validateUpdateNote i b =
     (let id_errors = (if isMongoId i then [] else [(''id'', ''Invalid note ID format'', Some (JStr i))]);
          title_errors = (case b_title b of None \<Rightarrow> []
             | Some s \<Rightarrow> check_text ''title'' (trim s) TITLE_MIN_LENGTH TITLE_MAX_LENGTH
                          ''Title cannot be empty if provided'' title_length_message);
          content_errors = (case b_content b of None \<Rightarrow> []
             | Some s \<Rightarrow> check_text ''content'' (trim s) CONTENT_MIN_LENGTH CONTENT_MAX_LENGTH
                          ''Content cannot be empty if provided'' content_length_message);
          b' = b\<lparr>b_title := map_option (\<lambda>s. escape (trim s)) (b_title b),
                 b_content := map_option (\<lambda>s. escape (trim s)) (b_content b)\<rparr>;
          custom_errors =
            (if (b_title b' = None \<or> b_title b' = Some []) \<and> (b_content b' = None \<or> b_content b' = Some [])
             then [([], update_required_message, Some (body_json b'))] else [])
      in (id_errors @ title_errors @ content_errors @ custom_errors, b'))"

definition validateNoteId :: "string \<Rightarrow> field_error list" where
  "validateNoteId i = (if isMongoId i then [] else [(''id'', ''Invalid note ID format'', Some (JStr i))])"

text \<open>\<open>handleValidationErrors\<close> when the error list is not empty.\<close>

definition validation_failure :: "field_error list \<Rightarrow> response" where
  "validation_failure errors =
     \<lparr>status = 400,
      body = JObj [(''success'', JBool False), (''message'', JStr VALIDATION_ERROR),
                   (''errors'', JArr (map field_error_json errors))]\<rparr>"

subsection \<open>What a request handler takes from its surroundings\<close>

text \<open>
  The full-text index of the store (the \<open>$text\<close> operator and its \<open>textScore\<close>) is a
  parameter of the model: which documents a search string matches, and with what score.
\<close>

record text_index =
  text_match :: "string \<Rightarrow> doc \<Rightarrow> bool"
  text_score :: "string \<Rightarrow> doc \<Rightarrow> int"

text \<open>
  The rest of a request's surroundings: the clock (\<open>new Date()\<close>, in milliseconds), the
  ObjectId the driver generates for a new document, the failure the store answers this
  request with (if any), the variable \<open>NODE_ENV\<close> and the process uptime.
\<close>

record env =
  now :: int
  fresh_oid :: "96 word"
  fault :: "err option"
  NODE_ENV :: "string option"
  uptime :: int

definition isDevelopment :: "env \<Rightarrow> bool" where
  "isDevelopment e = (NODE_ENV e = Some ''development'')"

text \<open>\<open>config.nodeEnv\<close> of \<open>getEnvironmentConfig\<close>: \<open>process.env.NODE_ENV || 'development'\<close>.\<close>

definition nodeEnv :: "env \<Rightarrow> string" where
  "nodeEnv e = (case NODE_ENV e of None \<Rightarrow> ''development'' | Some s \<Rightarrow> or_else s ''development'')"

subsection \<open>Sorting as the store does\<close>

text \<open>
  The value a document is sorted by, with the store's order of types
  (null, number, string, ObjectId, boolean, date) and a byte-wise order on strings.
  Sorting by the array \<open>tags\<close> or by a path the schema does not have is not modelled
  beyond giving every document the same key. The sort is an insertion sort, stable on
  equal keys (the store promises no order among them).
\<close>

datatype skey = KNull | KNum int | KStr string | KOid nat | KBool bool | KDate int

fun str_le :: "string \<Rightarrow> string \<Rightarrow> bool" where
  "str_le [] t = True"
| "str_le (a # s) [] = False"
| "str_le (a # s) (b # t) = ((of_char a :: nat) < of_char b \<or> (a = b \<and> str_le s t))"

fun key_rank :: "skey \<Rightarrow> nat" where
  "key_rank KNull = 0"
| "key_rank (KNum _) = 1"
| "key_rank (KStr _) = 2"
| "key_rank (KOid _) = 3"
| "key_rank (KBool _) = 4"
| "key_rank (KDate _) = 5"

fun key_le :: "skey \<Rightarrow> skey \<Rightarrow> bool" where
  "key_le (KNum a) (KNum b) = (a \<le> b)"
| "key_le (KStr a) (KStr b) = str_le a b"
| "key_le (KOid a) (KOid b) = (a \<le> b)"
| "key_le (KBool a) (KBool b) = (a \<le> b)"
| "key_le (KDate a) (KDate b) = (a \<le> b)"
| "key_le a b = (key_rank a \<le> key_rank b)"

definition field_key :: "string \<Rightarrow> doc \<Rightarrow> skey" where
  "field_key f d =
     (if f = ''createdAt'' then KDate (createdAt d)
      else if f = ''updatedAt'' then KDate (updatedAt d)
      else if f = ''title'' then KStr (title d)
      else if f = ''content'' then KStr (content d)
      else if f = ''isArchived'' then KBool (isArchived d)
      else if f = ''_id'' then KOid (unat (oid d))
      else if f = ''__v'' then KNum (int (version d))
      else KNull)"

fun insert_by :: "('a \<Rightarrow> 'a \<Rightarrow> bool) \<Rightarrow> 'a \<Rightarrow> 'a list \<Rightarrow> 'a list" where
  "insert_by le x [] = [x]"
| "insert_by le x (y # ys) = (if le x y then x # y # ys else y # insert_by le x ys)"

definition sort_by :: "('a \<Rightarrow> 'a \<Rightarrow> bool) \<Rightarrow> 'a list \<Rightarrow> 'a list" where
  "sort_by le xs = foldr (insert_by le) xs []"

text \<open>The order \<open>sortOptions[sortBy] = sortOrder === "desc" ? -1 : 1\<close> asks for.\<close>

definition sort_le :: "string \<Rightarrow> string \<Rightarrow> doc \<Rightarrow> doc \<Rightarrow> bool" where
  "sort_le by ord a b =
     (if ord = ''desc'' then key_le (field_key by b) (field_key by a)
      else key_le (field_key by a) (field_key by b))"

definition sort_docs :: "string \<Rightarrow> string \<Rightarrow> doc list \<Rightarrow> doc list" where
  "sort_docs by ord ds = sort_by (sort_le by ord) ds"

text \<open>
  \<open>.skip(s).limit(l)\<close> on a result: the store rejects a negative skip; a limit of zero is
  no limit, and a negative limit is its absolute value.
\<close>

definition skip_error :: err where
  "skip_error = JsError ''MongoServerError'' ''Skip value must be non-negative'' NoCode []"

definition skip_limit :: "int \<Rightarrow> int \<Rightarrow> doc list \<Rightarrow> err + doc list" where
  "skip_limit s l ds =
     (if s < 0 then Inl skip_error
      else Inr (if l = 0 then drop (nat s) ds else take (nat \<bar>l\<bar>) (drop (nat s) ds)))"

subsection \<open>The list handler (controllers/notesController.js, getNotes)\<close>

text \<open>
  The query parameters of \<open>GET /api/notes\<close> after destructuring with defaults. \<open>page\<close> and
  \<open>limit\<close> are the integers their decimal numerals denote (parameters that are not
  decimal numerals are outside the model).
\<close>

record list_query =
  q_page :: int
  q_limit :: int
  q_sortBy :: string
  q_sortOrder :: string
  q_archived :: string
  q_search :: string

definition default_query :: list_query where
  "default_query = \<lparr>q_page = 1, q_limit = 50, q_sortBy = ''createdAt'', q_sortOrder = ''desc'',
     q_archived = ''false'', q_search = []\<rparr>"

record pagination =
  currentPage :: int
  totalPages :: jsnum
  totalCount :: int
  hasNextPage :: bool
  hasPrevPage :: bool
  limit :: int

text \<open>The filter object: \<open>isArchived: archived === "true"\<close>, and \<open>$text\<close> when the trimmed
  search string is not empty.\<close>

definition matches_filter :: "text_index \<Rightarrow> list_query \<Rightarrow> doc \<Rightarrow> bool" where
  "matches_filter ti q d =
     (isArchived d = (q_archived q = ''true'')
      \<and> (if trim (q_search q) = [] then True else text_match ti (q_search q) d))"

definition getNotes_exec ::
  "text_index \<Rightarrow> env \<Rightarrow> store \<Rightarrow> list_query \<Rightarrow> err + (doc list \<times> pagination)" where
  "getNotes_exec ti e st q =
     (case fault e of
        Some x \<Rightarrow> Inl x
      | None \<Rightarrow>
          (let found = filter (matches_filter ti q) st;
               skip = (q_page q - 1) * q_limit q
           in case skip_limit skip (q_limit q) (sort_docs (q_sortBy q) (q_sortOrder q) found) of
                Inl x \<Rightarrow> Inl x
              | Inr notes \<Rightarrow>
                  (let count = int (length found);
                       pages = js_ceil_div count (q_limit q)
                   in Inr (notes,
                        \<lparr>currentPage = q_page q, totalPages = pages, totalCount = count,
                         hasNextPage = js_lt (q_page q) pages, hasPrevPage = (q_page q > 1),
                         limit = q_limit q\<rparr>))))"

definition pagination_json :: "pagination \<Rightarrow> json" where
  "pagination_json p =
     JObj [(''currentPage'', JNum (currentPage p)),
           (''totalPages'', jsnum_json (totalPages p)),
           (''totalCount'', JNum (totalCount p)),
           (''hasNextPage'', JBool (hasNextPage p)),
           (''hasPrevPage'', JBool (hasPrevPage p)),
           (''limit'', JNum (limit p))]"

definition getNotes :: "text_index \<Rightarrow> env \<Rightarrow> store \<Rightarrow> list_query \<Rightarrow> response" where
  "getNotes ti e st q =
     (case getNotes_exec ti e st q of
        Inl x \<Rightarrow> errorHandler (isDevelopment e) x
      | Inr (notes, p) \<Rightarrow>
          \<lparr>status = 200,
           body = JObj [(''success'', JBool True), (''data'', JArr (map lean_json notes)),
                        (''pagination'', pagination_json p)]\<rparr>)"

subsection \<open>Schema validation and the pre-save hook (models/Note.js)\<close>

text \<open>
  The validators of a string path, after the \<open>trim\<close> setter: \<open>required\<close> (an absent or
  empty value), \<open>minlength\<close>, \<open>maxlength\<close>. A path reports its first failing validator.
\<close>

definition validate_path ::
  "string \<Rightarrow> string \<Rightarrow> string \<Rightarrow> string \<Rightarrow> nat \<Rightarrow> nat \<Rightarrow> string option \<Rightarrow> field_error list" where
  "validate_path path msg_required msg_min msg_max mn mx v =
     (case v of
        None \<Rightarrow> [(path, msg_required, None)]
      | Some s \<Rightarrow>
          (let t = trim s
           in if t = [] then [(path, msg_required, Some (JStr t))]
              else if length t < mn then [(path, msg_min, Some (JStr t))]
              else if mx < length t then [(path, msg_max, Some (JStr t))]
              else []))"

definition validate_title :: "string option \<Rightarrow> field_error list" where
  "validate_title v =
     validate_path ''title'' ''Title is required'' ''Title must be at least 1 character long''
       ''Title cannot exceed 200 characters'' TITLE_MIN_LENGTH TITLE_MAX_LENGTH v"

definition validate_content :: "string option \<Rightarrow> field_error list" where
  "validate_content v =
     validate_path ''content'' ''Content is required''
       ''Content must be at least 1 character long''
       ''Content cannot exceed 10000 characters'' CONTENT_MIN_LENGTH CONTENT_MAX_LENGTH v"

definition validate_tags :: "string list \<Rightarrow> field_error list" where
  "validate_tags ts =
     (if length ts \<le> 10 then []
      else [(''tags'', ''A note cannot have more than 10 tags'', Some (JArr (map JStr ts)))])"

text \<open>The \<open>pre("save")\<close> hook: a title or content that is truthy and blank is an error.\<close>

definition presave :: "doc \<Rightarrow> err option" where
  "presave d =
     (if title d \<noteq> [] \<and> trim (title d) = [] then
        Some (JsError ''Error'' ''Title cannot be empty or just whitespace'' NoCode [])
      else if content d \<noteq> [] \<and> trim (content d) = [] then
        Some (JsError ''Error'' ''Content cannot be empty or just whitespace'' NoCode [])
      else None)"

subsection \<open>The other handlers (controllers/notesController.js)\<close>

definition NOTE_CREATED :: string where "NOTE_CREATED = ''Note created successfully''"
definition NOTE_UPDATED :: string where "NOTE_UPDATED = ''Note updated successfully''"
definition NOTE_DELETED :: string where "NOTE_DELETED = ''Note deleted successfully''"

text \<open>
  \<open>tags.map((tag) => tag.trim()).filter(Boolean)\<close>: an element that is not a string has no
  \<open>trim\<close>, and the call throws a \<open>TypeError\<close>.
\<close>

fun tag_strings :: "json list \<Rightarrow> string list option" where
  "tag_strings [] = Some []"
| "tag_strings (JStr s # js) = map_option ((#) s) (tag_strings js)"
| "tag_strings (_ # js) = None"

definition type_error :: err where
  "type_error = JsError ''TypeError'' ''tag.trim is not a function'' NoCode []"

definition clean_tags :: "json list \<Rightarrow> err + string list" where
  "clean_tags js =
     (case tag_strings js of
        None \<Rightarrow> Inl type_error
      | Some ss \<Rightarrow> Inr (filter (\<lambda>t. t \<noteq> []) (map trim ss)))"

definition not_found_response :: response where
  "not_found_response =
     \<lparr>status = 404, body = JObj [(''success'', JBool False), (''message'', JStr NOTE_NOT_FOUND)]\<rparr>"

text \<open>
  \<open>createNote\<close> up to the response: build \<open>noteData\<close>, construct the document (schema
  defaults, a fresh id, \<open>__v = 0\<close>), validate it, run the pre-save hook, stamp both
  timestamps with the same clock reading and insert it.
\<close>

definition createNote_exec :: "env \<Rightarrow> store \<Rightarrow> req_body \<Rightarrow> err + (store \<times> doc)" where
  "createNote_exec e st b =
     (case (case b_tags b of Some (JArr js) \<Rightarrow> clean_tags js | _ \<Rightarrow> Inr []) of
        Inl x \<Rightarrow> Inl x
      | Inr ts \<Rightarrow>
          (let errors = validate_title (map_option trim (b_title b))
                        @ validate_content (map_option trim (b_content b))
                        @ validate_tags ts;
               d = \<lparr>oid = fresh_oid e,
                    title = (case b_title b of None \<Rightarrow> [] | Some s \<Rightarrow> trim (trim s)),
                    content = (case b_content b of None \<Rightarrow> [] | Some s \<Rightarrow> trim (trim s)),
                    isArchived = False, tags = ts,
                    createdAt = now e, updatedAt = now e, version = 0\<rparr>
           in if errors \<noteq> [] then Inl (ValidationError errors)
              else case presave d of
                     Some x \<Rightarrow> Inl x
                   | None \<Rightarrow>
                       (case fault e of
                          Some x \<Rightarrow> Inl x
                        | None \<Rightarrow> Inr (st @ [d], d))))"

definition createNote :: "env \<Rightarrow> store \<Rightarrow> req_body \<Rightarrow> store \<times> response" where
  "createNote e st b =
     (case createNote_exec e st b of
        Inl x \<Rightarrow> (st, errorHandler (isDevelopment e) x)
      | Inr (st', d) \<Rightarrow>
          (st', \<lparr>status = 201,
                 body = JObj [(''success'', JBool True), (''message'', JStr NOTE_CREATED),
                              (''data'', toJSON d)]\<rparr>))"

text \<open>
  The update object of \<open>updateNote\<close>: only the members that were provided. \<open>None\<close> is a
  member left out of \<open>updateData\<close>.
\<close>

record update_data =
  u_title :: "string option"
  u_content :: "string option"
  u_tags :: "string list option"
  u_isArchived :: "bool option"

definition build_update :: "req_body \<Rightarrow> err + update_data" where
  "build_update b =
     (case (case b_tags b of
              Some (JArr js) \<Rightarrow> (case clean_tags js of Inl x \<Rightarrow> Inl x | Inr ts \<Rightarrow> Inr (Some ts))
            | _ \<Rightarrow> Inr None) of
        Inl x \<Rightarrow> Inl x
      | Inr ts \<Rightarrow>
          Inr \<lparr>u_title = map_option trim (b_title b),
               u_content = map_option trim (b_content b),
               u_tags = ts,
               u_isArchived = map_option truthy (b_isArchived b)\<rparr>)"

text \<open>\<open>$set\<close> of the update object, and \<open>updatedAt\<close> set from the clock as
  \<open>timestamps: true\<close> does on every update.\<close>

definition apply_update :: "update_data \<Rightarrow> int \<Rightarrow> doc \<Rightarrow> doc" where
  "apply_update u t d =
     d\<lparr>title := (case u_title u of None \<Rightarrow> title d | Some s \<Rightarrow> trim s),
       content := (case u_content u of None \<Rightarrow> content d | Some s \<Rightarrow> trim s),
       tags := (case u_tags u of None \<Rightarrow> tags d | Some ts \<Rightarrow> ts),
       isArchived := (case u_isArchived u of None \<Rightarrow> isArchived d | Some a \<Rightarrow> a),
       updatedAt := t\<rparr>"

text \<open>
  \<open>Note.findByIdAndUpdate(id, updateData, {new: true, runValidators: true})\<close>: the id is
  cast, the validators of the paths in the update run, and the first document with that
  id, if there is one, is updated and returned.
\<close>

definition findByIdAndUpdate ::
  "env \<Rightarrow> store \<Rightarrow> string \<Rightarrow> update_data \<Rightarrow> err + (store \<times> doc option)" where
  "findByIdAndUpdate e st i u =
     (case cast_oid i of
        None \<Rightarrow> Inl (CastError ''_id'' (JStr i))
      | Some w \<Rightarrow>
          (let errors =
                 (case u_title u of None \<Rightarrow> [] | Some s \<Rightarrow> validate_title (Some s))
                 @ (case u_content u of None \<Rightarrow> [] | Some s \<Rightarrow> validate_content (Some s))
                 @ (case u_tags u of None \<Rightarrow> [] | Some ts \<Rightarrow> validate_tags ts)
           in if errors \<noteq> [] then Inl (ValidationError errors)
              else case fault e of
                     Some x \<Rightarrow> Inl x
                   | None \<Rightarrow>
                       (case find_by_oid st w of
                          None \<Rightarrow> Inr (st, None)
                        | Some d \<Rightarrow>
                            (let d' = apply_update u (now e) d
                             in Inr (replace_first w d' st, Some d')))))"

definition updateNote_exec ::
  "env \<Rightarrow> store \<Rightarrow> string \<Rightarrow> req_body \<Rightarrow> err + (store \<times> doc option)" where
  "updateNote_exec e st i b =
     (case build_update b of
        Inl x \<Rightarrow> Inl x
      | Inr u \<Rightarrow> findByIdAndUpdate e st i u)"

definition updateNote :: "env \<Rightarrow> store \<Rightarrow> string \<Rightarrow> req_body \<Rightarrow> store \<times> response" where
  "updateNote e st i b =
     (case updateNote_exec e st i b of
        Inl x \<Rightarrow> (st, errorHandler (isDevelopment e) x)
      | Inr (st', None) \<Rightarrow> (st', not_found_response)
      | Inr (st', Some d) \<Rightarrow>
          (st', \<lparr>status = 200,
                 body = JObj [(''success'', JBool True), (''message'', JStr NOTE_UPDATED),
                              (''data'', toJSON d)]\<rparr>))"

definition deleteNote_exec :: "env \<Rightarrow> store \<Rightarrow> string \<Rightarrow> err + (store \<times> doc option)" where
  "deleteNote_exec e st i =
     (case cast_oid i of
        None \<Rightarrow> Inl (CastError ''_id'' (JStr i))
      | Some w \<Rightarrow>
          (case fault e of
             Some x \<Rightarrow> Inl x
           | None \<Rightarrow>
               (case find_by_oid st w of
                  None \<Rightarrow> Inr (st, None)
                | Some d \<Rightarrow> Inr (remove_first w st, Some d))))"

definition deleteNote :: "env \<Rightarrow> store \<Rightarrow> string \<Rightarrow> store \<times> response" where
  "deleteNote e st i =
     (case deleteNote_exec e st i of
        Inl x \<Rightarrow> (st, errorHandler (isDevelopment e) x)
      | Inr (st', None) \<Rightarrow> (st', not_found_response)
      | Inr (st', Some d) \<Rightarrow>
          (st', \<lparr>status = 200,
                 body = JObj [(''success'', JBool True), (''message'', JStr NOTE_DELETED),
                              (''data'', JObj [(''id'', JStr (oid_string (oid d))),
                                               (''title'', JStr (title d))])]\<rparr>))"

definition getNoteById :: "env \<Rightarrow> store \<Rightarrow> string \<Rightarrow> response" where
  "getNoteById e st i =
     (case cast_oid i of
        None \<Rightarrow> errorHandler (isDevelopment e) (CastError ''_id'' (JStr i))
      | Some w \<Rightarrow>
          (case fault e of
             Some x \<Rightarrow> errorHandler (isDevelopment e) x
           | None \<Rightarrow>
               (case find_by_oid st w of
                  None \<Rightarrow> not_found_response
                | Some d \<Rightarrow>
                    \<lparr>status = 200,
                     body = JObj [(''success'', JBool True), (''data'', lean_json d)]\<rparr>)))"

text \<open>
  \<open>toggleArchiveNote\<close> up to the response: read the document, negate \<open>isArchived\<close>, and
  \<open>save()\<close> it (the pre-save hook runs, and \<open>updatedAt\<close> is stamped).
\<close>

definition toggleArchiveNote_exec ::
  "env \<Rightarrow> store \<Rightarrow> string \<Rightarrow> err + (store \<times> doc option)" where
  "toggleArchiveNote_exec e st i =
     (case cast_oid i of
        None \<Rightarrow> Inl (CastError ''_id'' (JStr i))
      | Some w \<Rightarrow>
          (case fault e of
             Some x \<Rightarrow> Inl x
           | None \<Rightarrow>
               (case find_by_oid st w of
                  None \<Rightarrow> Inr (st, None)
                | Some d \<Rightarrow>
                    (let d' = d\<lparr>isArchived := \<not> isArchived d, updatedAt := now e\<rparr>
                     in case presave d' of
                          Some x \<Rightarrow> Inl x
                        | None \<Rightarrow> Inr (replace_first w d' st, Some d')))))"

definition toggleArchiveNote :: "env \<Rightarrow> store \<Rightarrow> string \<Rightarrow> store \<times> response" where
  "toggleArchiveNote e st i =
     (case toggleArchiveNote_exec e st i of
        Inl x \<Rightarrow> (st, errorHandler (isDevelopment e) x)
      | Inr (st', None) \<Rightarrow> (st', not_found_response)
      | Inr (st', Some d) \<Rightarrow>
          (st', \<lparr>status = 200,
                 body = JObj [(''success'', JBool True),
                              (''message'', JStr (''Note ''
                                 @ (if isArchived d then ''archived'' else ''unarchived'')
                                 @ '' successfully'')),
                              (''data'', toJSON d)]\<rparr>))"

text \<open>
  \<open>searchNotes\<close>: the static \<open>Note.searchNotes\<close> finds the non-archived matches, projects
  the text score into each and sorts by it, best first.
\<close>

definition score_le :: "text_index \<Rightarrow> string \<Rightarrow> doc \<Rightarrow> doc \<Rightarrow> bool" where
  "score_le ti s a b = (text_score ti s b \<le> text_score ti s a)"

definition Note_searchNotes :: "text_index \<Rightarrow> store \<Rightarrow> string \<Rightarrow> doc list" where
  "Note_searchNotes ti st s =
     sort_by (score_le ti s) (filter (\<lambda>d. text_match ti s d \<and> \<not> isArchived d) st)"

definition searchNotes :: "text_index \<Rightarrow> env \<Rightarrow> store \<Rightarrow> string option \<Rightarrow> int \<Rightarrow> response" where
  "searchNotes ti e st query l =
     (case query of
        None \<Rightarrow>
          \<lparr>status = 400,
           body = JObj [(''success'', JBool False), (''message'', JStr ''Search query is required'')]\<rparr>
      | Some s \<Rightarrow>
          if s = [] \<or> trim s = [] then
            \<lparr>status = 400,
             body = JObj [(''success'', JBool False), (''message'', JStr ''Search query is required'')]\<rparr>
          else
            (case fault e of
               Some x \<Rightarrow> errorHandler (isDevelopment e) x
             | None \<Rightarrow>
                 (let found = Note_searchNotes ti st (trim s);
                      notes = (if l = 0 then found else take (nat \<bar>l\<bar>) found)
                  in \<lparr>status = 200,
                      body = JObj [(''success'', JBool True),
                                   (''data'', JArr (map (\<lambda>d. JObj (doc_fields d
                                        @ [(''score'', JNum (text_score ti (trim s) d))])) notes)),
                                   (''meta'', JObj [(''query'', JStr (trim s)),
                                                    (''resultsCount'', JNum (int (length notes)))])]\<rparr>)))"

subsection \<open>The application (index.js, routes/notes.js)\<close>

text \<open>
  A request after routing: the route it matched, with the parameters that route reads.
  \<open>Unmatched\<close> is any other method and URL. The answers of the CORS middleware to
  preflight requests and the failures of the body parsers are outside the model.
\<close>

datatype request =
  GetHealth
| GetNotes list_query
| GetSearch "string option" int
| GetNoteById string
| PostNote req_body
| PutNote string req_body
| PatchArchive string
| DeleteNote string
| Unmatched string string

definition health :: "env \<Rightarrow> response" where
  "health e =
     \<lparr>status = 200,
      body = JObj [(''status'', JStr ''healthy''), (''timestamp'', JDate (now e)),
                   (''environment'', JStr (nodeEnv e)), (''uptime'', JNum (uptime e))]\<rparr>"

definition route_not_found :: "string \<Rightarrow> string \<Rightarrow> response" where
  "route_not_found m url =
     \<lparr>status = 404,
      body = JObj [(''success'', JBool False),
                   (''message'', JStr (''Route '' @ m @ '' '' @ url @ '' not found''))]\<rparr>"

text \<open>
  The middleware stacks of the router: \<open>sanitizeRequestBody\<close>, then the route's
  validation array, whose last element answers 400 when an error was collected, then the
  controller.
\<close>

definition post_note :: "env \<Rightarrow> store \<Rightarrow> req_body \<Rightarrow> store \<times> response" where
  "post_note e st b =
     (case validateCreateNote (sanitizeRequestBody b) of
        (errors, b') \<Rightarrow>
          if errors \<noteq> [] then (st, validation_failure errors) else createNote e st b')"

definition put_note :: "env \<Rightarrow> store \<Rightarrow> string \<Rightarrow> req_body \<Rightarrow> store \<times> response" where
  "put_note e st i b =
     (case validateUpdateNote i (sanitizeRequestBody b) of
        (errors, b') \<Rightarrow>
          if errors \<noteq> [] then (st, validation_failure errors) else updateNote e st i b')"

fun handle :: "text_index \<Rightarrow> env \<Rightarrow> store \<Rightarrow> request \<Rightarrow> store \<times> response" where
  "handle ti e st GetHealth = (st, health e)"
| "handle ti e st (GetNotes q) = (st, getNotes ti e st q)"
| "handle ti e st (GetSearch query l) = (st, searchNotes ti e st query l)"
| "handle ti e st (GetNoteById i) =
     (if validateNoteId i \<noteq> [] then (st, validation_failure (validateNoteId i))
      else (st, getNoteById e st i))"
| "handle ti e st (PostNote b) = post_note e st b"
| "handle ti e st (PutNote i b) = put_note e st i b"
| "handle ti e st (PatchArchive i) =
     (if validateNoteId i \<noteq> [] then (st, validation_failure (validateNoteId i))
      else toggleArchiveNote e st i)"
| "handle ti e st (DeleteNote i) =
     (if validateNoteId i \<noteq> [] then (st, validation_failure (validateNoteId i))
      else deleteNote e st i)"
| "handle ti e st (Unmatched m url) = (st, route_not_found m url)"

subsection \<open>Fixtures for concrete runs\<close>

text \<open>
  A text index to run the handlers with: a document matches a search string that occurs in
  its title or content, and its score is the number of occurrences.
\<close>

fun occurrences :: "string \<Rightarrow> string \<Rightarrow> nat" where
  "occurrences [] sub = 0"
| "occurrences (c # cs) sub = (if is_prefix sub (c # cs) then 1 else 0) + occurrences cs sub"

definition substring_index :: text_index where
  "substring_index =
     \<lparr>text_match = (\<lambda>s d. str_includes (title d) s \<or> str_includes (content d) s),
      text_score = (\<lambda>s d. int (occurrences (title d) s + occurrences (content d) s))\<rparr>"

definition quiet_env :: env where
  "quiet_env = \<lparr>now = 5000, fresh_oid = 9, fault = None, NODE_ENV = Some ''production'',
     uptime = 60\<rparr>"

definition note_a :: doc where
  "note_a = \<lparr>oid = 1, title = ''milk'', content = ''buy'', isArchived = True, tags = [],
     createdAt = 1000, updatedAt = 1000, version = 0\<rparr>"

definition note_b :: doc where
  "note_b = \<lparr>oid = 2, title = ''milk milk'', content = ''two'', isArchived = False, tags = [''x''],
     createdAt = 2000, updatedAt = 2000, version = 0\<rparr>"

definition note_c :: doc where
  "note_c = \<lparr>oid = 3, title = ''milk'', content = ''one'', isArchived = False, tags = [],
     createdAt = 3000, updatedAt = 5000, version = 0\<rparr>"

definition demo_store :: store where
  "demo_store = [note_a, note_b, note_c]"



text \<open>The items of a list result (none when the query failed).\<close>

definition list_items :: "err + (doc list \<times> pagination) \<Rightarrow> doc list" where
  "list_items r = (case r of Inl _ \<Rightarrow> [] | Inr (notes, p) \<Rightarrow> notes)"

text \<open>The envelope of a response: the top-level \<open>success\<close> member, when it is a boolean.\<close>

definition success_flag :: "response \<Rightarrow> bool option" where
  "success_flag r = (case jfield ''success'' (body r) of Some (JBool b) \<Rightarrow> Some b | _ \<Rightarrow> None)"

definition milk_query :: list_query where
  "milk_query = default_query\<lparr>q_search := ''milk''\<rparr>"

definition archived_milk_query :: list_query where
  "archived_milk_query = default_query\<lparr>q_search := ''milk'', q_archived := ''true''\<rparr>"



text \<open>Update patches that carry a single member, and the id of \<open>note_b\<close>.\<close>

definition only_archived_patch :: req_body where
  "only_archived_patch = \<lparr>b_title = None, b_content = None, b_tags = None,
     b_isArchived = Some (JBool True)\<rparr>"

definition only_tags_patch :: req_body where
  "only_tags_patch = \<lparr>b_title = None, b_content = None, b_tags = Some (JArr [JStr ''x'']),
     b_isArchived = None\<rparr>"

definition only_title_patch :: req_body where
  "only_title_patch = \<lparr>b_title = Some ''  eggs '', b_content = None, b_tags = None,
     b_isArchived = None\<rparr>"

definition id_b :: string where
  "id_b = ''000000000000000000000002''"

definition id_c :: string where
  "id_c = ''000000000000000000000003''"


text \<open>A create payload whose title has exactly 200 characters, each of them \<open><\<close>.\<close>

definition angle_body :: req_body where
  "angle_body = \<lparr>b_title = Some (replicate 200 (CHR ''<'')), b_content = Some ''c'',
     b_tags = None, b_isArchived = None\<rparr>"

section \<open>Client side\<close>

subsection \<open>Types of the client (types/index.ts)\<close>

text \<open>
  The client's \<open>Note\<close> interface. Optional members are options. The timestamps are the
  ISO strings the client receives.
\<close>

record Note =
  n_id :: string
  n_title :: string
  n_content :: string
  n_createdAt :: string
  n_updatedAt :: string
  n_isArchived :: "bool option"
  n_tags :: "string list option"

text \<open>The pagination object held in the hook's state. JavaScript numbers are modelled as
  integers (the hook only adds and subtracts one).\<close>

record pagination_state =
  p_currentPage :: int
  p_totalPages :: int
  p_totalCount :: int
  p_hasNextPage :: bool
  p_hasPrevPage :: bool
  p_limit :: int

datatype LoadingState = Idle | Loading | Success | Error

text \<open>The \<open>useState\<close> cells of \<open>useNotes\<close> (the filters, which the mutating callbacks
  never touch, are left out).\<close>

record hook_state =
  h_notes :: "Note list"
  h_pagination :: pagination_state
  h_loadingState :: LoadingState
  h_error :: "string option"
  h_isRefreshing :: bool

text \<open>
  What an awaited call of the API service gives back to the hook: the promise resolves with
  a value, or it rejects with an \<open>ApiError\<close> of which the hook reads only \<open>message\<close>.
\<close>

datatype 'a api_outcome = Resolved 'a | Rejected string

definition DELETE_NOTE_ERROR :: string where
  "DELETE_NOTE_ERROR = ''Failed to delete note. Please try again.''"

definition CREATE_NOTE_ERROR :: string where
  "CREATE_NOTE_ERROR = ''Failed to create note. Please try again.''"

definition UPDATE_NOTE_ERROR :: string where
  "UPDATE_NOTE_ERROR = ''Failed to update note. Please try again.''"

subsection \<open>The hook's mutating callbacks (hooks/useNotes.ts)\<close>

text \<open>
  Each callback awaits the API service and then applies its functional state updates; a
  rejection is rethrown as \<open>Error(message)\<close> (the left summand) and leaves the state as it
  was. The result is the new state and what the callback's promise settles to.
\<close>

definition hook_createNote ::
  "hook_state \<Rightarrow> Note api_outcome \<Rightarrow> hook_state \<times> (string + Note)" where
  "hook_createNote st r =
     (case r of
        Resolved newNote \<Rightarrow>
          (st\<lparr>h_notes := newNote # h_notes st,
              h_pagination := (h_pagination st)\<lparr>p_totalCount := p_totalCount (h_pagination st) + 1\<rparr>\<rparr>,
           Inr newNote)
      | Rejected msg \<Rightarrow> (st, Inl (or_else msg CREATE_NOTE_ERROR)))"

definition hook_updateNote ::
  "hook_state \<Rightarrow> string \<Rightarrow> Note api_outcome \<Rightarrow> hook_state \<times> (string + Note)" where
  "hook_updateNote st i r =
     (case r of
        Resolved updatedNote \<Rightarrow>
          (st\<lparr>h_notes := map (\<lambda>note. if n_id note = i then updatedNote else note) (h_notes st)\<rparr>,
           Inr updatedNote)
      | Rejected msg \<Rightarrow> (st, Inl (or_else msg UPDATE_NOTE_ERROR)))"

definition hook_deleteNote ::
  "hook_state \<Rightarrow> string \<Rightarrow> unit api_outcome \<Rightarrow> hook_state \<times> (string + unit)" where
  "hook_deleteNote st i r =
     (case r of
        Resolved _ \<Rightarrow>
          (st\<lparr>h_notes := filter (\<lambda>note. n_id note \<noteq> i) (h_notes st),
              h_pagination := (h_pagination st)\<lparr>p_totalCount := p_totalCount (h_pagination st) - 1\<rparr>\<rparr>,
           Inr ())
      | Rejected msg \<Rightarrow> (st, Inl (or_else msg DELETE_NOTE_ERROR)))"

definition hook_archiveNote ::
  "hook_state \<Rightarrow> string \<Rightarrow> Note api_outcome \<Rightarrow> hook_state \<times> (string + Note)" where
  "hook_archiveNote st i r =
     (case r of
        Resolved updatedNote \<Rightarrow>
          (st\<lparr>h_notes := map (\<lambda>note. if n_id note = i then updatedNote else note) (h_notes st)\<rparr>,
           Inr updatedNote)
      | Rejected msg \<Rightarrow> (st, Inl (or_else msg UPDATE_NOTE_ERROR)))"

text \<open>A cached state used for concrete runs: one note, and a count of one.\<close>

definition cached_note :: Note where
  "cached_note = \<lparr>n_id = ''a1'', n_title = ''t'', n_content = ''c'',
     n_createdAt = ''2024-01-01'', n_updatedAt = ''2024-01-01'',
     n_isArchived = Some False, n_tags = Some []\<rparr>"

definition cached_state :: hook_state where
  "cached_state = \<lparr>h_notes = [cached_note],
     h_pagination = \<lparr>p_currentPage = 1, p_totalPages = 1, p_totalCount = 1,
       p_hasNextPage = False, p_hasPrevPage = False, p_limit = 20\<rparr>,
     h_loadingState = Success, h_error = None, h_isRefreshing = False\<rparr>"

subsection \<open>The retry loop of the API service (services/api.ts)\<close>

text \<open>
  What \<open>requestFn\<close> throws: an axios error, of which the loop reads
  \<open>error.response?.status\<close> (\<open>None\<close> when there is no response, a network-layer
  failure), or any other error.
\<close>

datatype request_error = AxiosError "nat option" | OtherError string

datatype 'a attempt = Fulfilled 'a | Failed request_error

definition RETRY_ATTEMPTS :: int where
  "RETRY_ATTEMPTS = 3"

definition RETRY_DELAY :: nat where
  "RETRY_DELAY = 1000"

text \<open>The guard of line 202: an axios error whose response status is truthy and in
  \<open>[400, 500)\<close>.\<close>

fun is_client_error :: "request_error \<Rightarrow> bool" where
  "is_client_error (AxiosError (Some s)) = (s \<noteq> 0 \<and> s \<ge> 400 \<and> s < 500)"
| "is_client_error (AxiosError None) = False"
| "is_client_error (OtherError _) = False"

text \<open>
  One run of \<open>retryRequest\<close>. The request function is effectful: its \<open>k\<close>-th invocation
  (from 0) has the outcome \<open>requestFn k\<close>. The run records what the caller observes
  (\<open>outcome\<close>), how many times the request was sent (\<open>calls\<close>) and the delays slept
  between attempts, in milliseconds.
\<close>

record 'a retry_run =
  outcome :: "request_error + 'a"
  calls :: nat
  delays :: "nat list"

function retry_loop ::
  "(nat \<Rightarrow> 'a attempt) \<Rightarrow> int \<Rightarrow> nat \<Rightarrow> nat list \<Rightarrow> 'a retry_run" where
  "retry_loop requestFn attempts i ds =
     (if int i < attempts then
        (case requestFn i of
           Fulfilled v \<Rightarrow> \<lparr>outcome = Inr v, calls = i + 1, delays = ds\<rparr>
         | Failed e \<Rightarrow>
             if int i = attempts - 1 then \<lparr>outcome = Inl e, calls = i + 1, delays = ds\<rparr>
             else if is_client_error e then \<lparr>outcome = Inl e, calls = i + 1, delays = ds\<rparr>
             else retry_loop requestFn attempts (i + 1) (ds @ [RETRY_DELAY * 2 ^ i]))
      else \<lparr>outcome = Inl (OtherError ''Max retry attempts reached''), calls = i, delays = ds\<rparr>)"
  by pat_completeness auto
termination
  by (relation "measure (\<lambda>(requestFn, attempts, i, ds). nat (attempts - int i))") auto

declare retry_loop.simps [simp del]

definition retryRequest :: "(nat \<Rightarrow> 'a attempt) \<Rightarrow> int \<Rightarrow> 'a retry_run" where
  "retryRequest requestFn attempts = retry_loop requestFn attempts 0 []"

text \<open>
  The seven exported operations. Each one wraps its single HTTP call in
  \<open>retryRequest\<close> with the default attempt count; \<open>adapter_call\<close> is that wrapped call,
  before the operation reads the envelope.
\<close>

datatype api_op =
  OpGetNotes | OpGetNoteById | OpCreateNote | OpUpdateNote | OpDeleteNote
| OpSearchNotes | OpToggleArchiveNote

fun is_mutating :: "api_op \<Rightarrow> bool" where
  "is_mutating OpGetNotes = False"
| "is_mutating OpGetNoteById = False"
| "is_mutating OpSearchNotes = False"
| "is_mutating OpCreateNote = True"
| "is_mutating OpUpdateNote = True"
| "is_mutating OpDeleteNote = True"
| "is_mutating OpToggleArchiveNote = True"

fun adapter_call :: "api_op \<Rightarrow> (nat \<Rightarrow> 'a attempt) \<Rightarrow> 'a retry_run" where
  "adapter_call OpGetNotes requestFn = retryRequest requestFn RETRY_ATTEMPTS"
| "adapter_call OpGetNoteById requestFn = retryRequest requestFn RETRY_ATTEMPTS"
| "adapter_call OpCreateNote requestFn = retryRequest requestFn RETRY_ATTEMPTS"
| "adapter_call OpUpdateNote requestFn = retryRequest requestFn RETRY_ATTEMPTS"
| "adapter_call OpDeleteNote requestFn = retryRequest requestFn RETRY_ATTEMPTS"
| "adapter_call OpSearchNotes requestFn = retryRequest requestFn RETRY_ATTEMPTS"
| "adapter_call OpToggleArchiveNote requestFn = retryRequest requestFn RETRY_ATTEMPTS"

text \<open>Request scripts for concrete runs: the network drops the first attempt and the
  second succeeds; the server answers 404 every time.\<close>

fun network_drop_then_ok :: "nat \<Rightarrow> unit attempt" where
  "network_drop_then_ok 0 = Failed (AxiosError None)"
| "network_drop_then_ok (Suc k) = Fulfilled ()"

fun always_404 :: "nat \<Rightarrow> unit attempt" where
  "always_404 k = Failed (AxiosError (Some 404))"

section \<open>Properties\<close>

subsection \<open>Strings, the classifier and sorting\<close>

lemma dropWhile_rev_last:
  assumes "a \<noteq> []" "\<not> P (hd a)"
  shows "\<exists>zs. dropWhile P (rev a) = zs @ [hd a]"
proof -
  from assms obtain x a' where a: "a = x # a'" and nx: "\<not> P x" by (cases a) auto
  show ?thesis
  proof (cases "\<forall>y\<in>set (rev a'). P y")
    case True
    then have "dropWhile P (rev a' @ [x]) = [x]" using nx by (simp add: dropWhile_append)
    then show ?thesis using a by simp
  next
    case False
    then have "dropWhile P (rev a' @ [x]) = dropWhile P (rev a') @ [x]"
      by (metis dropWhile_append1)
    then show ?thesis using a by simp
  qed
qed

lemma trim_fixed:
  assumes "dropWhile is_space a = a"
  shows "dropWhile is_space (rev (dropWhile is_space (rev a))) = rev (dropWhile is_space (rev a))"
proof (cases "a = []")
  case True
  then show ?thesis by simp
next
  case False
  with assms have "\<not> is_space (hd a)" by (metis hd_dropWhile)
  with False obtain zs where "dropWhile is_space (rev a) = zs @ [hd a]"
    using dropWhile_rev_last by blast
  with \<open>\<not> is_space (hd a)\<close> show ?thesis by simp
qed

lemma trim_idem: "trim (trim s) = trim s"
proof -
  have "dropWhile is_space (trim s) = trim s"
    unfolding trim_def by (rule trim_fixed) simp
  then show ?thesis
    by (simp add: trim_def)
qed

lemma length_trim_le: "length (trim s) \<le> length s"
proof -
  have "length (dropWhile is_space (rev (dropWhile is_space s))) \<le> length (rev (dropWhile is_space s))"
    by (rule length_dropWhile_le)
  also have "\<dots> \<le> length s" by (simp add: length_dropWhile_le)
  finally show ?thesis by (simp add: trim_def)
qed

lemma escape_char_not_Nil: "escape_char c \<noteq> []"
  by (simp add: escape_char_def)

lemma escape_eq_Nil: "escape s = [] \<longleftrightarrow> s = []"
  by (cases s) (simp_all add: escape_def escape_char_not_Nil)

lemma status_errorHandler: "status (errorHandler dev x) \<in> {400, 401, 404, 409, 500, 503}"
  by (cases x) (simp_all add: errorHandler.simps)

lemma success_flag_errorHandler: "success_flag (errorHandler dev x) = Some False"
  by (cases x) (simp_all add: errorHandler.simps success_flag_def)



lemma set_insert_by: "set (insert_by le x xs) = insert x (set xs)"
  by (induction xs) auto

lemma set_sort_by: "set (sort_by le xs) = set xs"
  by (induction xs) (simp_all add: sort_by_def set_insert_by)

lemma sorted_insert_by:
  assumes tot: "\<And>a b. \<not> le a b \<Longrightarrow> le b a" and tr: "\<And>a b c. le a b \<Longrightarrow> le b c \<Longrightarrow> le a c"
  shows "sorted_wrt le xs \<Longrightarrow> sorted_wrt le (insert_by le x xs)"
proof (induction xs)
  case Nil
  then show ?case by simp
next
  case (Cons y ys)
  from Cons.prems have ys: "sorted_wrt le ys" and y: "\<forall>z\<in>set ys. le y z" by simp_all
  show ?case
  proof (cases "le x y")
    case True
    have "\<forall>z\<in>set ys. le x z" using True y tr by blast
    with True Cons.prems show ?thesis by simp
  next
    case False
    then have "le y x" by (rule tot)
    with y have "\<forall>z\<in>set (insert_by le x ys). le y z" by (simp add: set_insert_by)
    with False Cons.IH[OF ys] show ?thesis by simp
  qed
qed

lemma sorted_sort_by:
  assumes tot: "\<And>a b. \<not> le a b \<Longrightarrow> le b a" and tr: "\<And>a b c. le a b \<Longrightarrow> le b c \<Longrightarrow> le a c"
  shows "sorted_wrt le (sort_by le xs)"
proof (induction xs)
  case Nil
  then show ?case by (simp add: sort_by_def)
next
  case (Cons x xs)
  have "sort_by le (x # xs) = insert_by le x (sort_by le xs)" by (simp add: sort_by_def)
  with Cons sorted_insert_by[of le, OF tot tr] show ?case by simp
qed

lemma str_le_total: "\<not> str_le s t \<Longrightarrow> str_le t s"
  by (induction s t rule: str_le.induct) auto

lemma str_le_trans: "str_le s t \<Longrightarrow> str_le t u \<Longrightarrow> str_le s u"
proof (induction s t arbitrary: u rule: str_le.induct)
  case (1 t)
  then show ?case by simp
next
  case (2 a s)
  then show ?case by simp
next
  case (3 a s b t)
  then show ?case by (cases u) auto
qed

lemma key_le_total: "\<not> key_le a b \<Longrightarrow> key_le b a"
  by (cases a; cases b) (auto dest: str_le_total)

lemma key_le_trans: "key_le a b \<Longrightarrow> key_le b c \<Longrightarrow> key_le a c"
  by (cases a; cases b; cases c) (auto dest: str_le_trans)

lemma sort_le_total: "\<not> sort_le by ord a b \<Longrightarrow> sort_le by ord b a"
  by (auto simp: sort_le_def dest: key_le_total split: if_splits)

lemma sort_le_trans: "sort_le by ord a b \<Longrightarrow> sort_le by ord b c \<Longrightarrow> sort_le by ord a c"
  by (auto simp: sort_le_def intro: key_le_trans split: if_splits)

lemma sorted_sort_docs: "sorted_wrt (sort_le by ord) (sort_docs by ord ds)"
  unfolding sort_docs_def
  by (rule sorted_sort_by) (auto dest: sort_le_total intro: sort_le_trans)

subsection \<open>The list handler\<close>

lemma getNotes_exec_Inr:
  assumes "getNotes_exec ti e st q = Inr (notes, p)"
  shows "fault e = None"
    and "0 \<le> (q_page q - 1) * q_limit q"
    and "notes = (if q_limit q = 0 then drop (nat ((q_page q - 1) * q_limit q))
                     (sort_docs (q_sortBy q) (q_sortOrder q) (filter (matches_filter ti q) st))
                  else take (nat \<bar>q_limit q\<bar>) (drop (nat ((q_page q - 1) * q_limit q))
                     (sort_docs (q_sortBy q) (q_sortOrder q) (filter (matches_filter ti q) st))))"
    and "p = \<lparr>currentPage = q_page q,
              totalPages = js_ceil_div (int (length (filter (matches_filter ti q) st))) (q_limit q),
              totalCount = int (length (filter (matches_filter ti q) st)),
              hasNextPage = js_lt (q_page q)
                 (js_ceil_div (int (length (filter (matches_filter ti q) st))) (q_limit q)),
              hasPrevPage = (q_page q > 1), limit = q_limit q\<rparr>"
  using assms
  by (auto simp: getNotes_exec_def skip_limit_def Let_def split: option.splits if_splits sum.splits)

lemma set_sort_docs: "set (sort_docs by ord ds) = set ds"
  by (simp add: sort_docs_def set_sort_by)


text \<open>
  Claim C1, as the code has it. When the trimmed search string is not empty, every
  returned note is a stored note that matches the search string and whose \<open>isArchived\<close>
  equals the request's archived flag (\<open>archived === "true"\<close>), and the notes come in the
  order of the requested sort field and direction.
\<close>

theorem getNotes_text_filter:
  assumes "trim (q_search q) \<noteq> []" and "getNotes_exec ti e st q = Inr (notes, p)"
  shows "(\<forall>d\<in>set notes. d \<in> set st \<and> isArchived d = (q_archived q = ''true'')
            \<and> text_match ti (q_search q) d)
         \<and> sorted_wrt (sort_le (q_sortBy q) (q_sortOrder q)) notes"
proof -
  let ?all = "sort_docs (q_sortBy q) (q_sortOrder q) (filter (matches_filter ti q) st)"
  let ?s = "nat ((q_page q - 1) * q_limit q)"
  have ns: "notes = (if q_limit q = 0 then drop ?s ?all else take (nat \<bar>q_limit q\<bar>) (drop ?s ?all))"
    by (rule getNotes_exec_Inr(3)[OF assms(2)])
  have sub: "set notes \<subseteq> set ?all"
    unfolding ns by (auto dest: in_set_takeD in_set_dropD)
  have "\<forall>d\<in>set ?all. d \<in> set st \<and> isArchived d = (q_archived q = ''true'')
            \<and> text_match ti (q_search q) d"
    using assms(1) by (simp add: set_sort_docs matches_filter_def)
  with sub have a: "\<forall>d\<in>set notes. d \<in> set st \<and> isArchived d = (q_archived q = ''true'')
            \<and> text_match ti (q_search q) d"
    by blast
  have "sorted_wrt (sort_le (q_sortBy q) (q_sortOrder q)) ?all"
    by (rule sorted_sort_docs)
  then have b: "sorted_wrt (sort_le (q_sortBy q) (q_sortOrder q)) notes"
    unfolding ns by (simp add: sorted_wrt_take sorted_wrt_drop)
  from a b show ?thesis by simp
qed

theorem getNotes_text_filter_witness:
  "trim (q_search archived_milk_query) \<noteq> []
   \<and> list_items (getNotes_exec substring_index quiet_env demo_store archived_milk_query) = [note_a]
   \<and> note_a \<in> set demo_store
   \<and> isArchived note_a = (q_archived archived_milk_query = ''true'')
   \<and> text_match substring_index (q_search archived_milk_query) note_a
   \<and> sorted_wrt (sort_le (q_sortBy archived_milk_query) (q_sortOrder archived_milk_query)) [note_a]"
proof -
  have h1: "trim (q_search archived_milk_query) \<noteq> []"
    by code_simp
  have h2: "getNotes_exec substring_index quiet_env demo_store archived_milk_query =
     Inr ([note_a], \<lparr>currentPage = 1, totalPages = Num 1, totalCount = 1, hasNextPage = False,
            hasPrevPage = False, limit = 50\<rparr>)"
    by code_simp
  from getNotes_text_filter [OF h1 h2] h1 h2 show ?thesis
    by (simp add: list_items_def)
qed

text \<open>
  Claim C1 as stated fails twice. With \<open>archived=true\<close> and a search string, the list holds
  an archived note. With the default sort and a search string, the newer note comes first
  although the older one has the higher text score.
\<close>

theorem getNotes_search_counterexample:
  "trim (q_search archived_milk_query) \<noteq> []
   \<and> list_items (getNotes_exec substring_index quiet_env demo_store archived_milk_query) = [note_a]
   \<and> isArchived note_a
   \<and> trim (q_search milk_query) \<noteq> []
   \<and> list_items (getNotes_exec substring_index quiet_env demo_store milk_query) = [note_c, note_b]
   \<and> text_score substring_index (q_search milk_query) note_c
       < text_score substring_index (q_search milk_query) note_b"
  by code_simp












subsection \<open>The response envelope\<close>

lemma success_flag_literal:
  "success_flag \<lparr>status = s, body = JObj ((''success'', JBool b) # kvs)\<rparr> = Some b"
  by (simp add: success_flag_def)

lemma envelope_validation_failure: "success_flag (validation_failure errors) = Some False"
  by (simp add: validation_failure_def success_flag_def)

lemma envelope_not_found: "success_flag not_found_response = Some False"
  by (simp add: not_found_response_def success_flag_def)

lemma jkeys_pagination_json:
  "jkeys (pagination_json p) =
     [''currentPage'', ''totalPages'', ''totalCount'', ''hasNextPage'', ''hasPrevPage'', ''limit'']"
  by (simp add: pagination_json_def)

lemma envelope_getNotes:
  "success_flag (getNotes ti e st q) = Some False
   \<or> (success_flag (getNotes ti e st q) = Some True
      \<and> (\<exists>ns. jfield ''data'' (body (getNotes ti e st q)) = Some (JArr (map lean_json ns)))
      \<and> (\<exists>p. jfield ''pagination'' (body (getNotes ti e st q)) = Some (pagination_json p)))"
proof (cases "getNotes_exec ti e st q")
  case (Inl x)
  then show ?thesis by (simp add: getNotes_def success_flag_errorHandler)
next
  case (Inr r)
  then show ?thesis by (cases r) (auto simp: getNotes_def success_flag_literal)
qed

lemma envelope_searchNotes:
  "success_flag (searchNotes ti e st query l) = Some False
   \<or> (success_flag (searchNotes ti e st query l) = Some True
      \<and> jfield ''data'' (body (searchNotes ti e st query l)) \<noteq> None)"
  by (auto simp: searchNotes_def success_flag_errorHandler Let_def success_flag_literal
      split: option.splits)

lemma envelope_getNoteById:
  "success_flag (getNoteById e st i) = Some False
   \<or> (success_flag (getNoteById e st i) = Some True
      \<and> jfield ''data'' (body (getNoteById e st i)) \<noteq> None)"
  by (auto simp: getNoteById_def success_flag_errorHandler envelope_not_found success_flag_literal
      split: option.splits)

lemma envelope_createNote:
  "success_flag (snd (createNote e st b)) = Some False
   \<or> (success_flag (snd (createNote e st b)) = Some True
      \<and> jfield ''data'' (body (snd (createNote e st b))) \<noteq> None)"
  by (auto simp: createNote_def success_flag_errorHandler success_flag_literal
      split: sum.splits prod.splits)

lemma envelope_updateNote:
  "success_flag (snd (updateNote e st i b)) = Some False
   \<or> (success_flag (snd (updateNote e st i b)) = Some True
      \<and> jfield ''data'' (body (snd (updateNote e st i b))) \<noteq> None)"
  by (auto simp: updateNote_def success_flag_errorHandler envelope_not_found success_flag_literal
      split: sum.splits prod.splits option.splits)

lemma envelope_deleteNote:
  "success_flag (snd (deleteNote e st i)) = Some False
   \<or> (success_flag (snd (deleteNote e st i)) = Some True
      \<and> jfield ''data'' (body (snd (deleteNote e st i))) \<noteq> None)"
  by (auto simp: deleteNote_def success_flag_errorHandler envelope_not_found success_flag_literal
      split: sum.splits prod.splits option.splits)

lemma envelope_toggleArchiveNote:
  "success_flag (snd (toggleArchiveNote e st i)) = Some False
   \<or> (success_flag (snd (toggleArchiveNote e st i)) = Some True
      \<and> jfield ''data'' (body (snd (toggleArchiveNote e st i))) \<noteq> None)"
  by (auto simp: toggleArchiveNote_def success_flag_errorHandler envelope_not_found success_flag_literal
      split: sum.splits prod.splits option.splits)

lemma envelope_post_note:
  "success_flag (snd (post_note e st b)) = Some False
   \<or> (success_flag (snd (post_note e st b)) = Some True
      \<and> jfield ''data'' (body (snd (post_note e st b))) \<noteq> None)"
  using envelope_createNote
  by (auto simp: post_note_def envelope_validation_failure split: prod.splits)

lemma envelope_put_note:
  "success_flag (snd (put_note e st i b)) = Some False
   \<or> (success_flag (snd (put_note e st i b)) = Some True
      \<and> jfield ''data'' (body (snd (put_note e st i b))) \<noteq> None)"
  using envelope_updateNote
  by (auto simp: put_note_def envelope_validation_failure split: prod.splits)

lemma envelope_route_not_found: "success_flag (route_not_found m url) = Some False"
  by (simp add: route_not_found_def success_flag_def)

text \<open>
  Claim C5, as the code has it. Every response other than that of \<open>/health\<close> (the notes
  routes, with their validation failures and classified errors, and the 404 of an
  unmatched route) carries a top-level boolean \<open>success\<close>; when it is true, \<open>data\<close> is
  present; and a successful list response carries an array in \<open>data\<close> and the
  \<open>pagination\<close> object with the members \<open>currentPage\<close>, \<open>totalPages\<close>, \<open>totalCount\<close>,
  \<open>hasNextPage\<close>, \<open>hasPrevPage\<close>, \<open>limit\<close>.
\<close>

theorem envelope_except_health:
  assumes "req \<noteq> GetHealth"
  shows "(success_flag (snd (handle ti e st req)) = Some False
          \<or> (success_flag (snd (handle ti e st req)) = Some True
             \<and> jfield ''data'' (body (snd (handle ti e st req))) \<noteq> None))
       \<and> (\<forall>q. req = GetNotes q \<and> success_flag (snd (handle ti e st req)) = Some True \<longrightarrow>
            (\<exists>ns p. jfield ''data'' (body (snd (handle ti e st req))) = Some (JArr ns)
                \<and> jfield ''pagination'' (body (snd (handle ti e st req))) = Some p
                \<and> jkeys p = [''currentPage'', ''totalPages'', ''totalCount'', ''hasNextPage'',
                             ''hasPrevPage'', ''limit'']))"
proof (cases req)
  case GetHealth
  with assms show ?thesis by simp
next
  case (GetNotes q)
  with envelope_getNotes[of ti e st q] show ?thesis
    by (auto simp: jkeys_pagination_json)
next
  case (GetSearch query l)
  with envelope_searchNotes[of ti e st query l] show ?thesis by simp
next
  case (GetNoteById i)
  with envelope_getNoteById[of e st i] show ?thesis
    by (simp add: envelope_validation_failure)
next
  case (PostNote b)
  with envelope_post_note[of e st b] show ?thesis by simp
next
  case (PutNote i b)
  with envelope_put_note[of e st i b] show ?thesis by simp
next
  case (PatchArchive i)
  with envelope_toggleArchiveNote[of e st i] show ?thesis
    by (simp add: envelope_validation_failure)
next
  case (DeleteNote i)
  with envelope_deleteNote[of e st i] show ?thesis
    by (simp add: envelope_validation_failure)
next
  case (Unmatched m url)
  then show ?thesis by (simp add: envelope_route_not_found)
qed

theorem envelope_except_health_witness:
  "GetNotes default_query \<noteq> GetHealth
   \<and> success_flag (snd (handle substring_index quiet_env demo_store (GetNotes default_query))) = Some True
   \<and> (\<exists>ns p.
         jfield ''data'' (body (snd (handle substring_index quiet_env demo_store (GetNotes default_query))))
           = Some (JArr ns)
       \<and> jfield ''pagination'' (body (snd (handle substring_index quiet_env demo_store (GetNotes default_query))))
           = Some p
       \<and> jkeys p = [''currentPage'', ''totalPages'', ''totalCount'', ''hasNextPage'',
                    ''hasPrevPage'', ''limit''])"
proof -
  have h: "GetNotes default_query \<noteq> GetHealth" by simp
  have t: "success_flag (snd (handle substring_index quiet_env demo_store (GetNotes default_query)))
             = Some True"
    by code_simp
  from envelope_except_health [OF h, of substring_index quiet_env demo_store] t h
  show ?thesis by blast
qed

text \<open>
  Claim C5 as stated fails at \<open>/health\<close>: its response has the members \<open>status\<close>,
  \<open>timestamp\<close>, \<open>environment\<close> and \<open>uptime\<close>, and no \<open>success\<close>.
\<close>

theorem health_envelope_counterexample:
  "jfield ''success'' (body (snd (handle substring_index quiet_env demo_store GetHealth))) = None
   \<and> success_flag (snd (handle substring_index quiet_env demo_store GetHealth)) = None
   \<and> jkeys (body (snd (handle substring_index quiet_env demo_store GetHealth)))
       = [''status'', ''timestamp'', ''environment'', ''uptime'']
   \<and> status (snd (handle substring_index quiet_env demo_store GetHealth)) = 200"
  by code_simp

subsection \<open>What the list returns for each note\<close>

text \<open>
  Claim C3 does not hold of the code. \<open>getNotes\<close> runs its query with \<open>.lean()\<close>, so the
  schema's \<open>toJSON\<close> transform, which renames \<open>_id\<close> to \<open>id\<close> and deletes \<open>__v\<close>, is not
  applied: on the sample store, the first listed note has the members \<open>_id\<close> and \<open>__v\<close>
  and no \<open>id\<close>. The last conjunct is what the transform gives for the same note, which
  is what the create, update and toggle handlers return.
\<close>

theorem getNotes_items_are_raw:
  "jfield ''data'' (body (snd (handle substring_index quiet_env demo_store (GetNotes default_query))))
     = Some (JArr [lean_json note_c, lean_json note_b])
   \<and> jkeys (lean_json note_c)
       = [''_id'', ''title'', ''content'', ''isArchived'', ''tags'', ''createdAt'', ''updatedAt'', ''__v'']
   \<and> jfield ''id'' (lean_json note_c) = None
   \<and> jfield ''_id'' (lean_json note_c) = Some (JStr ''000000000000000000000003'')
   \<and> jfield ''__v'' (lean_json note_c) = Some (JNum 0)
   \<and> jkeys (toJSON note_c)
       = [''title'', ''content'', ''isArchived'', ''tags'', ''createdAt'', ''updatedAt'', ''id'']"
  by code_simp

subsection \<open>Validation of an update\<close>

lemma check_text_Nil:
  "mn \<le> 1 \<Longrightarrow> check_text path v mn mx m1 m2 = [] \<longleftrightarrow> v \<noteq> [] \<and> length v \<le> mx"
  by (cases v) (auto simp: check_text_def)

text \<open>
  Claim C2, as the code has it. An update request passes \<open>validateUpdateNote\<close> exactly when
  the id is accepted by \<open>isMongoId\<close>, each of title and content that is provided is
  non-empty and within its length bound after trimming, and at least one of title and
  content is provided. A request that passes is handed to \<open>updateNote\<close>; one that does
  not is answered 400 and the store is not touched. So a patch with only \<open>isArchived\<close> or
  only \<open>tags\<close> is a validation failure.
\<close>

theorem validateUpdateNote_passes_iff:
  "(fst (validateUpdateNote i (sanitizeRequestBody b)) = [] \<longleftrightarrow>
      isMongoId i
      \<and> (\<forall>t. b_title b = Some t \<longrightarrow> trim t \<noteq> [] \<and> length (trim t) \<le> 200)
      \<and> (\<forall>c. b_content b = Some c \<longrightarrow> trim c \<noteq> [] \<and> length (trim c) \<le> 10000)
      \<and> (b_title b \<noteq> None \<or> b_content b \<noteq> None))
   \<and> (fst (validateUpdateNote i (sanitizeRequestBody b)) = [] \<longrightarrow>
        put_note e st i b = updateNote e st i (snd (validateUpdateNote i (sanitizeRequestBody b))))
   \<and> (fst (validateUpdateNote i (sanitizeRequestBody b)) \<noteq> [] \<longrightarrow>
        put_note e st i b = (st, validation_failure (fst (validateUpdateNote i (sanitizeRequestBody b))))
        \<and> status (snd (put_note e st i b)) = 400)"
proof -
  have a: "fst (validateUpdateNote i (sanitizeRequestBody b)) = [] \<longleftrightarrow>
      isMongoId i
      \<and> (\<forall>t. b_title b = Some t \<longrightarrow> trim t \<noteq> [] \<and> length (trim t) \<le> 200)
      \<and> (\<forall>c. b_content b = Some c \<longrightarrow> trim c \<noteq> [] \<and> length (trim c) \<le> 10000)
      \<and> (b_title b \<noteq> None \<or> b_content b \<noteq> None)"
    by (cases "b_title b"; cases "b_content b")
       (auto simp: validateUpdateNote_def sanitizeRequestBody_def Let_def check_text_Nil
          trim_idem escape_eq_Nil TITLE_MIN_LENGTH_def TITLE_MAX_LENGTH_def
          CONTENT_MIN_LENGTH_def CONTENT_MAX_LENGTH_def)
  have b: "fst (validateUpdateNote i (sanitizeRequestBody b)) = [] \<longrightarrow>
        put_note e st i b = updateNote e st i (snd (validateUpdateNote i (sanitizeRequestBody b)))"
    by (simp add: put_note_def split: prod.splits)
  have c: "fst (validateUpdateNote i (sanitizeRequestBody b)) \<noteq> [] \<longrightarrow>
        put_note e st i b = (st, validation_failure (fst (validateUpdateNote i (sanitizeRequestBody b))))
        \<and> status (snd (put_note e st i b)) = 400"
    by (simp add: put_note_def validation_failure_def split: prod.splits)
  from a b c show ?thesis by blast
qed

theorem validateUpdateNote_passes_iff_witness:
  "fst (validateUpdateNote id_b (sanitizeRequestBody only_title_patch)) = []
   \<and> isMongoId id_b
   \<and> b_title only_title_patch = Some ''  eggs '' \<and> b_content only_title_patch = None
   \<and> trim ''  eggs '' \<noteq> [] \<and> length (trim ''  eggs '') \<le> 200
   \<and> put_note quiet_env demo_store id_b only_title_patch
       = updateNote quiet_env demo_store id_b
           (snd (validateUpdateNote id_b (sanitizeRequestBody only_title_patch)))"
proof -
  have p: "fst (validateUpdateNote id_b (sanitizeRequestBody only_title_patch)) = []"
    by code_simp
  have q: "b_title only_title_patch = Some ''  eggs '' \<and> b_content only_title_patch = None"
    by (simp add: only_title_patch_def)
  from validateUpdateNote_passes_iff [of id_b only_title_patch quiet_env demo_store] p q
  show ?thesis by simp
qed

text \<open>
  Claim C2 as stated fails: the id is well formed and names a stored note, the patch
  carries \<open>isArchived\<close> (or \<open>tags\<close>) alone, and the request is answered 400 by the
  validation layer with the store unchanged.
\<close>

theorem update_only_isArchived_counterexample:
  "isMongoId id_b \<and> cast_oid id_b = Some 2 \<and> find_by_oid demo_store 2 = Some note_b
   \<and> b_isArchived only_archived_patch = Some (JBool True)
   \<and> fst (validateUpdateNote id_b (sanitizeRequestBody only_archived_patch)) \<noteq> []
   \<and> put_note quiet_env demo_store id_b only_archived_patch
       = (demo_store, validation_failure [([], update_required_message,
             Some (JObj [(''isArchived'', JBool True)]))])
   \<and> status (snd (put_note quiet_env demo_store id_b only_archived_patch)) = 400
   \<and> b_tags only_tags_patch = Some (JArr [JStr ''x''])
   \<and> status (snd (put_note quiet_env demo_store id_b only_tags_patch)) = 400
   \<and> fst (put_note quiet_env demo_store id_b only_tags_patch) = demo_store"
  by code_simp

subsection \<open>Creating a note\<close>



lemma tag_strings_map_JStr: "tag_strings (map JStr ts) = Some ts"
  by (induction ts) simp_all

lemma clean_tags_map_JStr: "clean_tags (map JStr ts) = Inr (filter (\<lambda>x. x \<noteq> []) (map trim ts))"
  by (simp add: clean_tags_def tag_strings_map_JStr)



lemma trim_unchanged:
  assumes "s = [] \<or> (\<not> is_space (hd s) \<and> \<not> is_space (last s))"
  shows "trim s = s"
proof (cases "s = []")
  case True
  then show ?thesis by (simp add: trim_def)
next
  case False
  with assms have h: "\<not> is_space (hd s)" and l: "\<not> is_space (last s)" by simp_all
  from False h have a: "dropWhile is_space s = s" by (cases s) simp_all
  from False l have "\<not> is_space (hd (rev s))" by (simp add: hd_rev)
  with False have "dropWhile is_space (rev s) = rev s" by (cases "rev s") simp_all
  with a show ?thesis by (simp add: trim_def)
qed

lemma trim_ends:
  assumes "trim s \<noteq> []"
  shows "\<not> is_space (hd (trim s)) \<and> \<not> is_space (last (trim s))"
proof -
  have d: "dropWhile is_space (trim s) = trim s"
    unfolding trim_def by (rule trim_fixed) simp
  with assms have h: "\<not> is_space (hd (trim s))" by (metis hd_dropWhile)
  have "rev (trim s) = dropWhile is_space (rev (dropWhile is_space s))" by (simp add: trim_def)
  moreover from assms have "rev (trim s) \<noteq> []" by simp
  ultimately have "\<not> is_space (hd (rev (trim s)))" by (metis hd_dropWhile)
  with assms have "\<not> is_space (last (trim s))" by (simp add: hd_rev)
  with h show ?thesis by simp
qed

lemma escape_char_hd: "is_space (hd (escape_char c)) \<longleftrightarrow> is_space c"
  by (auto simp: escape_char_def is_space_def)

lemma escape_char_last: "is_space (last (escape_char c)) \<longleftrightarrow> is_space c"
  by (auto simp: escape_char_def is_space_def)

lemma hd_escape: "s \<noteq> [] \<Longrightarrow> hd (escape s) = hd (escape_char (hd s))"
  by (cases s) (simp_all add: escape_def escape_char_not_Nil)

lemma last_escape: "s \<noteq> [] \<Longrightarrow> last (escape s) = last (escape_char (last s))"
proof (induction s rule: rev_induct)
  case Nil
  then show ?case by simp
next
  case (snoc x xs)
  then show ?case by (simp add: escape_def escape_char_not_Nil)
qed

lemma trim_escape_trim: "trim (escape (trim s)) = escape (trim s)"
proof (cases "trim s = []")
  case True
  have "trim [] = []" by (simp add: trim_def)
  with True show ?thesis by (simp add: escape_def)
next
  case False
  then have "\<not> is_space (hd (escape (trim s))) \<and> \<not> is_space (last (escape (trim s)))"
    using trim_ends[OF False] by (simp add: hd_escape last_escape escape_char_hd escape_char_last)
  then show ?thesis by (intro trim_unchanged) simp
qed

lemma length_escape_ge: "length s \<le> length (escape s)"
proof (induction s)
  case Nil
  then show ?case by (simp add: escape_def)
next
  case (Cons a s)
  have "1 \<le> length (escape_char a)" using escape_char_not_Nil[of a] by (cases "escape_char a") simp_all
  with Cons show ?case by (simp add: escape_def)
qed

lemma length_filter_trim_le: "length (filter (\<lambda>x. x \<noteq> []) (map trim ts)) \<le> length ts"
  by (metis length_filter_le length_map)

lemma validate_path_ok:
  "trim s \<noteq> [] \<Longrightarrow> mn \<le> 1 \<Longrightarrow> length (trim s) \<le> mx \<Longrightarrow>
     validate_path path m1 m2 m3 mn mx (Some s) = []"
  by (cases "trim s") (simp_all add: validate_path_def Let_def)

lemma presave_ok:
  "trim (title d) \<noteq> [] \<Longrightarrow> trim (content d) \<noteq> [] \<Longrightarrow> presave d = None"
  by (simp add: presave_def)

lemma createNote_exec_ok:
  assumes "fault e = None"
    and "b_title b = Some t" and "trim t = t" and "t \<noteq> []" and "length t \<le> 200"
    and "b_content b = Some c" and "trim c = c" and "c \<noteq> []" and "length c \<le> 10000"
    and "(case b_tags b of Some (JArr js) \<Rightarrow> clean_tags js | _ \<Rightarrow> Inr []) = Inr tg"
    and "length tg \<le> 10"
  shows "\<exists>d. createNote_exec e st b = Inr (st @ [d], d)"
proof -
  have vt: "validate_title (Some t) = []"
    using assms(3,4,5)
    by (simp add: validate_title_def validate_path_ok TITLE_MIN_LENGTH_def TITLE_MAX_LENGTH_def)
  have vc: "validate_content (Some c) = []"
    using assms(7,8,9)
    by (simp add: validate_content_def validate_path_ok CONTENT_MIN_LENGTH_def CONTENT_MAX_LENGTH_def)
  have vg: "validate_tags tg = []" using assms(11) by (simp add: validate_tags_def)
  show ?thesis
    unfolding createNote_exec_def assms(10)
    using assms(1,2,3,4,6,7,8) by (simp add: Let_def vt vc vg presave_ok)
qed

lemma post_note_succeeds:
  assumes "fault e = None"
    and "b_title b = Some t" and "trim t \<noteq> []" and "length (escape (trim t)) \<le> 200"
    and "b_content b = Some c" and "trim c \<noteq> []" and "length (escape (trim c)) \<le> 10000"
    and "(b_tags b = None \<and> ts = []) \<or> b_tags b = Some (JArr (map JStr ts))"
    and "length ts \<le> 10"
  shows "success_flag (snd (post_note e st b)) = Some True \<and> status (snd (post_note e st b)) = 201"
proof -
  let ?t = "escape (trim t)" and ?c = "escape (trim c)"
  let ?b' = "(sanitizeRequestBody b)\<lparr>b_title := Some ?t, b_content := Some ?c\<rparr>"
  have lt: "length (trim t) \<le> 200" "length (trim c) \<le> 10000"
    using assms(4,7) length_escape_ge[of "trim t"] length_escape_ge[of "trim c"] by simp_all
  have v: "validateCreateNote (sanitizeRequestBody b) = ([], ?b')"
    using assms(2,3,5,6) lt
    by (simp add: validateCreateNote_def sanitizeRequestBody_def Let_def trim_idem check_text_Nil
        TITLE_MIN_LENGTH_def TITLE_MAX_LENGTH_def CONTENT_MIN_LENGTH_def CONTENT_MAX_LENGTH_def)
  have ne: "?t \<noteq> []" "?c \<noteq> []" using assms(3,6) by (simp_all add: escape_eq_Nil)
  have tt: "trim ?t = ?t" "trim ?c = ?c" by (rule trim_escape_trim)+
  have tg: "(case b_tags ?b' of Some (JArr js) \<Rightarrow> clean_tags js | _ \<Rightarrow> Inr [])
              = Inr (filter (\<lambda>x. x \<noteq> []) (map trim ts))"
    using assms(8) by (auto simp: sanitizeRequestBody_def clean_tags_map_JStr)
  have lg: "length (filter (\<lambda>x. x \<noteq> []) (map trim ts)) \<le> 10"
    using assms(9) length_filter_trim_le[of ts] by (rule_tac order_trans)
  have "\<exists>d. createNote_exec e st ?b' = Inr (st @ [d], d)"
    by (rule createNote_exec_ok[OF assms(1) _ tt(1) ne(1) assms(4) _ tt(2) ne(2) assms(7) tg lg]) simp_all
  then obtain d where "createNote_exec e st ?b' = Inr (st @ [d], d)" by blast
  then have "createNote e st ?b' = (st @ [d], \<lparr>status = 201,
                 body = JObj [(''success'', JBool True), (''message'', JStr NOTE_CREATED),
                              (''data'', toJSON d)]\<rparr>)"
    by (simp add: createNote_def)
  then show ?thesis
    by (simp add: post_note_def v success_flag_literal)
qed

text \<open>
  The bound of \<open>post_note_succeeds\<close> is on the escaped strings: a title of 200 characters
  passes the request validator, is escaped to 800 characters, and is then rejected by the
  schema's \<open>maxlength\<close>; the answer is 400 and nothing is stored.
\<close>

lemma post_note_escaped_title_rejected:
  "fst (validateCreateNote (sanitizeRequestBody angle_body)) = []
   \<and> status (snd (post_note quiet_env demo_store angle_body)) = 400
   \<and> success_flag (snd (post_note quiet_env demo_store angle_body)) = Some False
   \<and> fst (post_note quiet_env demo_store angle_body) = demo_store"
  by code_simp



subsection \<open>Updating a note\<close>

lemma find_by_oid_Some: "find_by_oid st w = Some d \<Longrightarrow> oid d = w \<and> d \<in> set st"
  unfolding find_by_oid_def by (induction st) (auto split: if_splits)

lemma find_replace_first:
  "find_by_oid st w = Some d \<Longrightarrow> oid d' = w \<Longrightarrow> find_by_oid (replace_first w d' st) w = Some d'"
  unfolding find_by_oid_def by (induction st) (auto split: if_splits)

lemma set_replace_first: "set (replace_first w d' st) \<subseteq> insert d' (set st)"
  by (induction st) auto

lemma set_remove_first: "set (remove_first w st) \<subseteq> set st"
  by (induction st) auto

lemma sanitize_members:
  "b_title (sanitizeRequestBody b) = map_option trim (b_title b)"
  "b_content (sanitizeRequestBody b) = map_option trim (b_content b)"
  "b_tags (sanitizeRequestBody b) = map_option trim_if_string (b_tags b)"
  "b_isArchived (sanitizeRequestBody b) = map_option trim_if_string (b_isArchived b)"
  by (simp_all add: sanitizeRequestBody_def)

lemma validateUpdateNote_body:
  "snd (validateUpdateNote i b) = b\<lparr>b_title := map_option (\<lambda>s. escape (trim s)) (b_title b),
        b_content := map_option (\<lambda>s. escape (trim s)) (b_content b)\<rparr>"
  by (simp add: validateUpdateNote_def Let_def)

lemma trim_if_string_JArr: "trim_if_string j = JArr js \<longleftrightarrow> j = JArr js"
  by (cases j) simp_all

lemma updateNote_exec_Some:
  assumes "updateNote_exec e st i b = Inr (st', Some d')"
  shows "\<exists>w d u. cast_oid i = Some w \<and> find_by_oid st w = Some d \<and> build_update b = Inr u
            \<and> d' = apply_update u (now e) d \<and> st' = replace_first w d' st"
proof -
  from assms obtain u where u: "build_update b = Inr u"
    and f: "findByIdAndUpdate e st i u = Inr (st', Some d')"
    by (auto simp: updateNote_exec_def split: sum.splits)
  from f obtain w where w: "cast_oid i = Some w"
    by (auto simp: findByIdAndUpdate_def split: option.splits)
  from f w have "\<exists>d. find_by_oid st w = Some d \<and> d' = apply_update u (now e) d
                  \<and> st' = replace_first w d' st"
    by (auto simp: findByIdAndUpdate_def Let_def split: if_splits option.splits)
  with u w show ?thesis by blast
qed

lemma updateNote_success:
  assumes "updateNote e st i b = (st', r)" and "success_flag r = Some True"
  shows "\<exists>w d u. cast_oid i = Some w \<and> find_by_oid st w = Some d \<and> build_update b = Inr u
            \<and> st' = replace_first w (apply_update u (now e) d) st
            \<and> r = \<lparr>status = 200,
                 body = JObj [(''success'', JBool True), (''message'', JStr NOTE_UPDATED),
                              (''data'', toJSON (apply_update u (now e) d))]\<rparr>"
proof (cases "updateNote_exec e st i b")
  case (Inl x)
  with assms show ?thesis by (auto simp: updateNote_def success_flag_errorHandler)
next
  case (Inr p)
  obtain st1 o1 where p: "p = (st1, o1)" by (cases p)
  show ?thesis
  proof (cases o1)
    case None
    with Inr p assms show ?thesis by (auto simp: updateNote_def envelope_not_found)
  next
    case (Some d')
    with Inr p have x: "updateNote_exec e st i b = Inr (st1, Some d')" by simp
    with assms(1) have "st' = st1" and "r = \<lparr>status = 200,
                 body = JObj [(''success'', JBool True), (''message'', JStr NOTE_UPDATED),
                              (''data'', toJSON d')]\<rparr>"
      by (simp_all add: updateNote_def)
    with updateNote_exec_Some[OF x] show ?thesis by blast
  qed
qed

lemma build_update_members:
  assumes "build_update b = Inr u"
  shows "(b_title b = None \<longrightarrow> u_title u = None)"
    and "(b_content b = None \<longrightarrow> u_content u = None)"
    and "((\<forall>js. b_tags b \<noteq> Some (JArr js)) \<longrightarrow> u_tags u = None)"
    and "(b_isArchived b = None \<longrightarrow> u_isArchived u = None)"
  using assms
  by (auto simp: build_update_def split: sum.splits option.splits json.splits)

text \<open>
  Claim C8, as the code has it. When \<open>PUT /api/notes/:id\<close> returns an updated entity, the
  id resolves to a stored note, and in the returned (and stored) entity every one of
  title, content, tags and isArchived that the request does not provide has the value it
  had before, as have the id, \<open>createdAt\<close> and the version key; \<open>updatedAt\<close> is the clock
  reading at the update, so it is later than its prior value exactly when the clock
  reading is.
\<close>

theorem put_note_frame:
  assumes "put_note e st i b = (st', r)" and "success_flag r = Some True"
  shows "\<exists>w d d'. cast_oid i = Some w \<and> find_by_oid st w = Some d
     \<and> status r = 200 \<and> jfield ''data'' (body r) = Some (toJSON d')
     \<and> find_by_oid st' w = Some d'
     \<and> oid d' = oid d \<and> createdAt d' = createdAt d \<and> version d' = version d
     \<and> (b_title b = None \<longrightarrow> title d' = title d)
     \<and> (b_content b = None \<longrightarrow> content d' = content d)
     \<and> ((\<forall>js. b_tags b \<noteq> Some (JArr js)) \<longrightarrow> tags d' = tags d)
     \<and> (b_isArchived b = None \<longrightarrow> isArchived d' = isArchived d)
     \<and> updatedAt d' = now e
     \<and> (updatedAt d < now e \<longrightarrow> updatedAt d < updatedAt d')"
proof -
  let ?b' = "snd (validateUpdateNote i (sanitizeRequestBody b))"
  from assms have run: "updateNote e st i ?b' = (st', r)"
    by (auto simp: put_note_def envelope_validation_failure split: prod.splits if_splits)
  from updateNote_success[OF run assms(2)] obtain w d u where
    w: "cast_oid i = Some w" and d: "find_by_oid st w = Some d" and u: "build_update ?b' = Inr u"
    and st': "st' = replace_first w (apply_update u (now e) d) st"
    and r: "r = \<lparr>status = 200,
                 body = JObj [(''success'', JBool True), (''message'', JStr NOTE_UPDATED),
                              (''data'', toJSON (apply_update u (now e) d))]\<rparr>"
    by blast
  let ?d' = "apply_update u (now e) d"
  have b': "b_title ?b' = None \<longleftrightarrow> b_title b = None" "b_content ?b' = None \<longleftrightarrow> b_content b = None"
    "b_isArchived ?b' = None \<longleftrightarrow> b_isArchived b = None"
    "(\<forall>js. b_tags ?b' \<noteq> Some (JArr js)) \<longleftrightarrow> (\<forall>js. b_tags b \<noteq> Some (JArr js))"
    by (auto simp: validateUpdateNote_body sanitize_members trim_if_string_JArr)
  have oid': "oid ?d' = w" using find_by_oid_Some[OF d] by (simp add: apply_update_def)
  have f: "find_by_oid st' w = Some ?d'"
    unfolding st' by (rule find_replace_first[OF d oid'])
  have frame: "(b_title b = None \<longrightarrow> title ?d' = title d)"
     "(b_content b = None \<longrightarrow> content ?d' = content d)"
     "((\<forall>js. b_tags b \<noteq> Some (JArr js)) \<longrightarrow> tags ?d' = tags d)"
     "(b_isArchived b = None \<longrightarrow> isArchived ?d' = isArchived d)"
    using build_update_members[OF u] b' by (auto simp: apply_update_def)
  show ?thesis
    apply (rule exI[of _ w], rule exI[of _ d], rule exI[of _ ?d'])
    using w d r f frame find_by_oid_Some[OF d] by (simp add: apply_update_def)
qed

theorem put_note_frame_witness:
  "success_flag (snd (put_note quiet_env demo_store id_b only_title_patch)) = Some True
   \<and> b_content only_title_patch = None \<and> b_isArchived only_title_patch = None
   \<and> (\<forall>js. b_tags only_title_patch \<noteq> Some (JArr js))
   \<and> updatedAt note_b < now quiet_env
   \<and> (\<exists>d'. jfield ''data'' (body (snd (put_note quiet_env demo_store id_b only_title_patch)))
                = Some (toJSON d')
          \<and> content d' = content note_b \<and> tags d' = tags note_b
          \<and> isArchived d' = isArchived note_b \<and> createdAt d' = createdAt note_b
          \<and> updatedAt note_b < updatedAt d')"
proof -
  have h1: "put_note quiet_env demo_store id_b only_title_patch
             = (fst (put_note quiet_env demo_store id_b only_title_patch),
                snd (put_note quiet_env demo_store id_b only_title_patch))" by simp
  have h2: "success_flag (snd (put_note quiet_env demo_store id_b only_title_patch)) = Some True"
    by code_simp
  have c: "cast_oid id_b = Some 2" by code_simp
  have f: "find_by_oid demo_store 2 = Some note_b" by code_simp
  have p: "b_content only_title_patch = None \<and> b_isArchived only_title_patch = None
           \<and> (\<forall>js. b_tags only_title_patch \<noteq> Some (JArr js))"
    by (simp add: only_title_patch_def)
  have t: "updatedAt note_b < now quiet_env" by (simp add: note_b_def quiet_env_def)
  from put_note_frame [OF h1 h2] obtain w d d' where
    x: "cast_oid id_b = Some w \<and> find_by_oid demo_store w = Some d
     \<and> status (snd (put_note quiet_env demo_store id_b only_title_patch)) = 200
     \<and> jfield ''data'' (body (snd (put_note quiet_env demo_store id_b only_title_patch)))
         = Some (toJSON d')
     \<and> find_by_oid (fst (put_note quiet_env demo_store id_b only_title_patch)) w = Some d'
     \<and> oid d' = oid d \<and> createdAt d' = createdAt d \<and> version d' = version d
     \<and> (b_title only_title_patch = None \<longrightarrow> title d' = title d)
     \<and> (b_content only_title_patch = None \<longrightarrow> content d' = content d)
     \<and> ((\<forall>js. b_tags only_title_patch \<noteq> Some (JArr js)) \<longrightarrow> tags d' = tags d)
     \<and> (b_isArchived only_title_patch = None \<longrightarrow> isArchived d' = isArchived d)
     \<and> updatedAt d' = now quiet_env
     \<and> (updatedAt d < now quiet_env \<longrightarrow> updatedAt d < updatedAt d')"
    by (elim exE) (rule that, assumption)
  from x have x1: "cast_oid id_b = Some w" and x2: "find_by_oid demo_store w = Some d"
    by simp_all
  from x1 c have "w = 2" by simp
  with x2 f have d: "d = note_b" by simp
  have "jfield ''data'' (body (snd (put_note quiet_env demo_store id_b only_title_patch)))
                = Some (toJSON d')
          \<and> content d' = content note_b \<and> tags d' = tags note_b
          \<and> isArchived d' = isArchived note_b \<and> createdAt d' = createdAt note_b
          \<and> updatedAt note_b < updatedAt d'"
    using x p t unfolding d by simp
  then show ?thesis using h2 p t by blast
qed

text \<open>
  Claim C8 as stated fails in its last part: \<open>note_c\<close> was last written at the clock
  reading 5000, the update arrives at the same reading, and the returned entity's
  \<open>updatedAt\<close> is 5000 again, not later.
\<close>

theorem update_same_millisecond_counterexample:
  "cast_oid id_c = Some 3 \<and> find_by_oid demo_store 3 = Some note_c
   \<and> updatedAt note_c = 5000 \<and> now quiet_env = 5000
   \<and> b_content only_title_patch = None \<and> b_tags only_title_patch = None
   \<and> b_isArchived only_title_patch = None
   \<and> snd (put_note quiet_env demo_store id_c only_title_patch)
       = \<lparr>status = 200,
          body = JObj [(''success'', JBool True), (''message'', JStr NOTE_UPDATED),
                       (''data'', toJSON (note_c\<lparr>title := ''eggs''\<rparr>))]\<rparr>
   \<and> jfield ''updatedAt'' (toJSON (note_c\<lparr>title := ''eggs''\<rparr>)) = Some (JDate 5000)
   \<and> \<not> (updatedAt note_c < updatedAt (note_c\<lparr>title := ''eggs''\<rparr>))"
  by code_simp

subsection \<open>Toggling the archive flag\<close>


text \<open>Every handler keeps the collection free of notes that the pre-save hook rejects.\<close>

lemma presave_None_iff:
  "presave d = None \<longleftrightarrow> (title d = [] \<or> trim (title d) \<noteq> []) \<and> (content d = [] \<or> trim (content d) \<noteq> [])"
  by (auto simp: presave_def)

lemma validate_path_Nil_trim:
  "validate_path path m1 m2 m3 mn mx (Some s) = [] \<Longrightarrow> trim s \<noteq> []"
  by (auto simp: validate_path_def Let_def split: if_splits)

lemma createNote_exec_keeps:
  assumes "\<forall>d\<in>set st. presave d = None" and "createNote_exec e st b = Inr (st', d')"
  shows "\<forall>d\<in>set st'. presave d = None"
  using assms
  by (auto simp: createNote_exec_def Let_def split: sum.splits option.splits if_splits)

lemma createNote_keeps:
  assumes "\<forall>d\<in>set st. presave d = None"
  shows "\<forall>d\<in>set (fst (createNote e st b)). presave d = None"
proof (cases "createNote_exec e st b")
  case (Inl x)
  with assms show ?thesis by (simp add: createNote_def)
next
  case (Inr p)
  obtain st' d' where "p = (st', d')" by (cases p)
  with Inr createNote_exec_keeps[OF assms, of e b st' d'] show ?thesis
    by (simp add: createNote_def)
qed

lemma findByIdAndUpdate_keeps:
  assumes "\<forall>d\<in>set st. presave d = None" and "findByIdAndUpdate e st i u = Inr (st', r)"
  shows "\<forall>d\<in>set st'. presave d = None"
proof -
  from assms(2) obtain w where w: "cast_oid i = Some w"
    by (auto simp: findByIdAndUpdate_def split: option.splits)
  from assms(2) w have vt: "\<And>s. u_title u = Some s \<Longrightarrow> validate_title (Some s) = []"
    and vc: "\<And>s. u_content u = Some s \<Longrightarrow> validate_content (Some s) = []"
    by (auto simp: findByIdAndUpdate_def Let_def split: if_splits)
  show ?thesis
  proof (cases "find_by_oid st w")
    case None
    with assms w show ?thesis
      by (auto simp: findByIdAndUpdate_def Let_def split: if_splits option.splits)
  next
    case (Some d)
    with assms(2) w have st': "st' = replace_first w (apply_update u (now e) d) st"
      by (auto simp: findByIdAndUpdate_def Let_def split: if_splits option.splits)
    have d: "presave d = None" using assms(1) find_by_oid_Some[OF Some] by simp
    have t: "title (apply_update u (now e) d) = [] \<or> trim (title (apply_update u (now e) d)) \<noteq> []"
    proof (cases "u_title u")
      case None
      with d show ?thesis by (simp add: apply_update_def presave_None_iff)
    next
      case (Some s)
      from vt[OF Some] have "trim s \<noteq> []"
        unfolding validate_title_def by (rule validate_path_Nil_trim)
      with Some show ?thesis by (simp add: apply_update_def trim_idem)
    qed
    have c: "content (apply_update u (now e) d) = [] \<or> trim (content (apply_update u (now e) d)) \<noteq> []"
    proof (cases "u_content u")
      case None
      with d show ?thesis by (simp add: apply_update_def presave_None_iff)
    next
      case (Some s)
      from vc[OF Some] have "trim s \<noteq> []"
        unfolding validate_content_def by (rule validate_path_Nil_trim)
      with Some show ?thesis by (simp add: apply_update_def trim_idem)
    qed
    from t c have "presave (apply_update u (now e) d) = None" by (simp add: presave_None_iff)
    with assms(1) set_replace_first[of w "apply_update u (now e) d" st] show ?thesis
      unfolding st' by blast
  qed
qed

lemma updateNote_keeps:
  assumes "\<forall>d\<in>set st. presave d = None"
  shows "\<forall>d\<in>set (fst (updateNote e st i b)). presave d = None"
proof (cases "updateNote_exec e st i b")
  case (Inl x)
  with assms show ?thesis by (simp add: updateNote_def)
next
  case (Inr p)
  obtain st' r where p: "p = (st', r)" by (cases p)
  with Inr obtain u where "findByIdAndUpdate e st i u = Inr (st', r)"
    by (auto simp: updateNote_exec_def split: sum.splits)
  from findByIdAndUpdate_keeps[OF assms this] Inr p show ?thesis
    by (cases r) (simp_all add: updateNote_def)
qed

lemma toggleArchiveNote_keeps:
  assumes "\<forall>d\<in>set st. presave d = None"
  shows "\<forall>d\<in>set (fst (toggleArchiveNote e st i)). presave d = None"
proof (cases "toggleArchiveNote_exec e st i")
  case (Inl x)
  with assms show ?thesis by (simp add: toggleArchiveNote_def)
next
  case (Inr p)
  obtain st' r where p: "p = (st', r)" by (cases p)
  with Inr have "\<forall>d\<in>set st'. presave d = None"
    using assms set_replace_first
    by (fastforce simp: toggleArchiveNote_exec_def Let_def split: option.splits)
  with Inr p show ?thesis by (cases r) (simp_all add: toggleArchiveNote_def)
qed

lemma deleteNote_keeps:
  assumes "\<forall>d\<in>set st. presave d = None"
  shows "\<forall>d\<in>set (fst (deleteNote e st i)). presave d = None"
proof (cases "deleteNote_exec e st i")
  case (Inl x)
  with assms show ?thesis by (simp add: deleteNote_def)
next
  case (Inr p)
  obtain st' r where p: "p = (st', r)" by (cases p)
  with Inr have "set st' \<subseteq> set st"
    using set_remove_first by (fastforce simp: deleteNote_exec_def split: option.splits)
  with assms have "\<forall>d\<in>set st'. presave d = None" by blast
  with Inr p show ?thesis by (cases r) (simp_all add: deleteNote_def)
qed

lemma handle_keeps_presave:
  assumes "\<forall>d\<in>set st. presave d = None"
  shows "\<forall>d\<in>set (fst (handle ti e st req)). presave d = None"
proof (cases req)
  case (PostNote b)
  with createNote_keeps[OF assms] assms show ?thesis
    by (simp add: post_note_def split: prod.splits)
next
  case (PutNote i b)
  with updateNote_keeps[OF assms] assms show ?thesis
    by (simp add: put_note_def split: prod.splits)
next
  case (PatchArchive i)
  with toggleArchiveNote_keeps[OF assms] assms show ?thesis by simp
next
  case (DeleteNote i)
  with deleteNote_keeps[OF assms] assms show ?thesis by simp
qed (use assms in simp_all)



subsection \<open>The hook's delete\<close>

text \<open>
  Claim C10. When the server confirms a delete, the hook's \<open>deleteNote\<close> removes every
  entry with that id from the cached list and decrements \<open>pagination.totalCount\<close> by
  exactly one, whatever the list holds: when no entry has the id, the list is unchanged and
  the count still goes down by one.
\<close>

theorem hook_deleteNote_confirmed:
  "h_notes (fst (hook_deleteNote st i (Resolved ()))) = filter (\<lambda>note. n_id note \<noteq> i) (h_notes st)
   \<and> p_totalCount (h_pagination (fst (hook_deleteNote st i (Resolved ()))))
       = p_totalCount (h_pagination st) - 1
   \<and> snd (hook_deleteNote st i (Resolved ())) = Inr ()
   \<and> (i \<notin> n_id ` set (h_notes st) \<longrightarrow>
        h_notes (fst (hook_deleteNote st i (Resolved ()))) = h_notes st)"
proof -
  have "i \<notin> n_id ` set (h_notes st) \<Longrightarrow> filter (\<lambda>note. n_id note \<noteq> i) (h_notes st) = h_notes st"
    by (induction "h_notes st") (auto simp: filter_id_conv)
  then show ?thesis
    by (simp add: hook_deleteNote_def)
qed

theorem hook_deleteNote_confirmed_witness:
  "''zz'' \<notin> n_id ` set (h_notes cached_state)
   \<and> h_notes (fst (hook_deleteNote cached_state ''zz'' (Resolved ()))) = h_notes cached_state
   \<and> p_totalCount (h_pagination (fst (hook_deleteNote cached_state ''zz'' (Resolved ())))) = 0
   \<and> length (h_notes (fst (hook_deleteNote cached_state ''zz'' (Resolved ())))) = 1"
  using hook_deleteNote_confirmed [of cached_state "''zz''"]
  by (simp add: cached_state_def cached_note_def)


subsection \<open>The retry loop\<close>

text \<open>One unfolding of the loop, by the branch it takes.\<close>

lemma retry_loop_stop:
  "\<not> int i < a \<Longrightarrow> retry_loop f a i ds =
     \<lparr>outcome = Inl (OtherError ''Max retry attempts reached''), calls = i, delays = ds\<rparr>"
  by (subst retry_loop.simps) simp

lemma retry_loop_ok:
  "int i < a \<Longrightarrow> f i = Fulfilled v \<Longrightarrow>
     retry_loop f a i ds = \<lparr>outcome = Inr v, calls = i + 1, delays = ds\<rparr>"
  by (subst retry_loop.simps) simp

lemma retry_loop_throw:
  "int i < a \<Longrightarrow> f i = Failed e \<Longrightarrow> int i = a - 1 \<or> is_client_error e \<Longrightarrow>
     retry_loop f a i ds = \<lparr>outcome = Inl e, calls = i + 1, delays = ds\<rparr>"
  by (subst retry_loop.simps) auto

lemma retry_loop_again:
  "int i < a \<Longrightarrow> f i = Failed e \<Longrightarrow> int i \<noteq> a - 1 \<Longrightarrow> \<not> is_client_error e \<Longrightarrow>
     retry_loop f a i ds = retry_loop f a (i + 1) (ds @ [RETRY_DELAY * 2 ^ i])"
  by (subst retry_loop.simps) simp

lemma retry_loop_cases:
  fixes f :: "nat \<Rightarrow> 'a attempt" and i :: nat and a :: int
  obtains (stop) "\<not> int i < a"
  | (ok) v where "int i < a" "f i = Fulfilled v"
  | (throw) e where "int i < a" "f i = Failed e" "int i = a - 1 \<or> is_client_error e"
  | (again) e where "int i < a" "f i = Failed e" "int i \<noteq> a - 1" "\<not> is_client_error e"
  by (cases "f i") auto

lemma retry_loop_calls_ge: "i \<le> calls (retry_loop f a i ds)"
proof (induction f a i ds rule: retry_loop.induct)
  case (1 f a i ds)
  show ?case
  proof (cases rule: retry_loop_cases[where i=i and a=a and f=f])
    case (again e)
    with 1[of e] show ?thesis by (simp add: retry_loop_again)
  qed (simp_all add: retry_loop_stop retry_loop_ok retry_loop_throw)
qed

lemma retry_loop_calls_gt: "int i < a \<Longrightarrow> i + 1 \<le> calls (retry_loop f a i ds)"
proof (cases rule: retry_loop_cases[where i=i and a=a and f=f])
  case (again e)
  with retry_loop_calls_ge[of "i + 1" f a] show ?thesis by (simp add: retry_loop_again)
qed (simp_all add: retry_loop_stop retry_loop_ok retry_loop_throw)

lemma retry_loop_calls_le: "calls (retry_loop f a i ds) \<le> max i (nat a)"
proof (induction f a i ds rule: retry_loop.induct)
  case (1 f a i ds)
  show ?case
  proof (cases rule: retry_loop_cases[where i=i and a=a and f=f])
    case (again e)
    with 1[of e] show ?thesis by (simp add: retry_loop_again)
  qed (auto simp add: retry_loop_stop retry_loop_ok retry_loop_throw)
qed

lemma retry_loop_client_error_last:
  "i \<le> k \<Longrightarrow> k < calls (retry_loop f a i ds) \<Longrightarrow> f k = Failed e \<Longrightarrow> is_client_error e
   \<Longrightarrow> calls (retry_loop f a i ds) = k + 1 \<and> outcome (retry_loop f a i ds) = Inl e"
proof (induction f a i ds rule: retry_loop.induct)
  case (1 f a i ds)
  show ?case
  proof (cases rule: retry_loop_cases[where i=i and a=a and f=f])
    case stop
    with 1(2,3) show ?thesis by (simp add: retry_loop_stop)
  next
    case (ok v)
    with 1(2,3) have "i = k" by (simp add: retry_loop_ok)
    with ok 1(4) show ?thesis by simp
  next
    case (throw e')
    with 1(2,3) have "i = k" by (simp add: retry_loop_throw)
    with throw 1(2-) show ?thesis by (auto simp add: retry_loop_throw)
  next
    case (again e')
    with 1(2-) have "i \<noteq> k" by auto
    with again 1(1)[of e'] 1(2-) show ?thesis by (simp add: retry_loop_again)
  qed
qed

lemma retry_loop_retries:
  "i \<le> k \<Longrightarrow> k < calls (retry_loop f a i ds) \<Longrightarrow> f k = Failed e \<Longrightarrow> \<not> is_client_error e
   \<Longrightarrow> int k < a - 1 \<Longrightarrow> k + 1 < calls (retry_loop f a i ds)"
proof (induction f a i ds rule: retry_loop.induct)
  case (1 f a i ds)
  show ?case
  proof (cases rule: retry_loop_cases[where i=i and a=a and f=f])
    case stop
    with 1(2-) show ?thesis by (simp add: retry_loop_stop)
  next
    case (ok v)
    with 1(2,3) have "i = k" by (simp add: retry_loop_ok)
    with ok 1(4) show ?thesis by simp
  next
    case (throw e')
    with 1(2,3) have "i = k" by (simp add: retry_loop_throw)
    with throw 1(2-) show ?thesis by (auto simp add: retry_loop_throw)
  next
    case (again e')
    show ?thesis
    proof (cases "i = k")
      case True
      from 1(6) have "int (k + 1) < a" by simp
      then have "k + 1 + 1 \<le> calls (retry_loop f a (k + 1) (ds @ [RETRY_DELAY * 2 ^ k]))"
        by (rule retry_loop_calls_gt)
      with True again show ?thesis by (simp add: retry_loop_again)
    next
      case False
      with again 1(1)[of e'] 1(2-) show ?thesis by (simp add: retry_loop_again)
    qed
  qed
qed

text \<open>
  Claim C4, as the code has it. Every operation, reading or mutating, goes through the same
  loop: a failure whose response status is 4xx ends the run at once and is what the caller
  gets; any other failure (a network-layer failure with no response among them) on the
  first or second attempt is followed by another attempt; the request is sent at least once
  and at most three times.
\<close>

theorem adapter_retry_policy:
  "(\<forall>k e. k < calls (adapter_call op f) \<and> f k = Failed e \<and> is_client_error e \<longrightarrow>
        calls (adapter_call op f) = k + 1 \<and> outcome (adapter_call op f) = Inl e)
   \<and> (\<forall>k e. k < calls (adapter_call op f) \<and> f k = Failed e \<and> \<not> is_client_error e \<and> k < 2 \<longrightarrow>
        k + 1 < calls (adapter_call op f))
   \<and> 1 \<le> calls (adapter_call op f) \<and> calls (adapter_call op f) \<le> 3"
proof -
  have eq: "adapter_call op f = retry_loop f 3 0 []"
    by (cases op) (simp_all add: retryRequest_def RETRY_ATTEMPTS_def)
  have a: "\<forall>k e. k < calls (retry_loop f 3 0 []) \<and> f k = Failed e \<and> is_client_error e \<longrightarrow>
        calls (retry_loop f 3 0 []) = k + 1 \<and> outcome (retry_loop f 3 0 []) = Inl e"
    using retry_loop_client_error_last [of 0 _ f 3 "[]"] by blast
  have b: "\<forall>k e. k < calls (retry_loop f 3 0 []) \<and> f k = Failed e \<and> \<not> is_client_error e \<and> k < 2 \<longrightarrow>
        k + 1 < calls (retry_loop f 3 0 [])"
  proof (intro allI impI)
    fix k e
    assume h: "k < calls (retry_loop f 3 0 []) \<and> f k = Failed e \<and> \<not> is_client_error e \<and> k < 2"
    then have "int k < 3 - 1" by simp
    with h show "k + 1 < calls (retry_loop f 3 0 [])"
      using retry_loop_retries [of 0 k f 3 "[]" e] by simp
  qed
  have c: "1 \<le> calls (retry_loop f 3 0 [])"
    using retry_loop_calls_gt [of 0 3 f "[]"] by simp
  have d: "calls (retry_loop f 3 0 []) \<le> 3"
    using retry_loop_calls_le [of f 3 0 "[]"] by simp
  show ?thesis
    unfolding eq using a b c d by blast
qed

theorem adapter_retry_policy_witness:
  "0 < calls (adapter_call OpDeleteNote always_404)
   \<and> always_404 0 = Failed (AxiosError (Some 404)) \<and> is_client_error (AxiosError (Some 404))
   \<and> calls (adapter_call OpDeleteNote always_404) = 1
   \<and> outcome (adapter_call OpDeleteNote always_404) = Inl (AxiosError (Some 404))
   \<and> network_drop_then_ok 0 = Failed (AxiosError None) \<and> \<not> is_client_error (AxiosError None)
   \<and> 0 + 1 < calls (adapter_call OpUpdateNote network_drop_then_ok)"
proof -
  have p: "0 < calls (adapter_call OpDeleteNote always_404)"
    by (simp add: retryRequest_def RETRY_ATTEMPTS_def retry_loop.simps)
  have q: "0 < calls (adapter_call OpUpdateNote network_drop_then_ok)"
    by (simp add: retryRequest_def RETRY_ATTEMPTS_def retry_loop.simps)
  from p adapter_retry_policy [of OpDeleteNote always_404]
  have "calls (adapter_call OpDeleteNote always_404) = 0 + 1
        \<and> outcome (adapter_call OpDeleteNote always_404) = Inl (AxiosError (Some 404))"
    by simp
  moreover from q adapter_retry_policy [of OpUpdateNote network_drop_then_ok]
  have "0 + 1 < calls (adapter_call OpUpdateNote network_drop_then_ok)"
    by simp
  ultimately show ?thesis using p by simp
qed

text \<open>
  Claim C4 as stated fails: \<open>createNote\<close> is a mutating call, its first attempt fails at
  the network layer with no response, and the request is sent a second time.
\<close>

theorem adapter_mutating_retry_counterexample:
  "is_mutating OpCreateNote
   \<and> network_drop_then_ok 0 = Failed (AxiosError None)
   \<and> calls (adapter_call OpCreateNote network_drop_then_ok) = 2
   \<and> outcome (adapter_call OpCreateNote network_drop_then_ok) = Inr ()
   \<and> delays (adapter_call OpCreateNote network_drop_then_ok) = [1000]"
  by (simp add: retryRequest_def RETRY_ATTEMPTS_def RETRY_DELAY_def retry_loop.simps)

end
